theory Spec2Isabelle
  imports Complex_Main "HOL-Library.Sublist" "HOL-Library.AList" "HOL-Library.Log_Nat"
begin

section \<open>JavaScript values and strings\<close>

text \<open>
  The servers read request bodies produced by the JSON body parser and answer with JSON.
  A value is one of the JSON shapes, or \<open>JUndefined\<close> for a property that is absent.
  Numbers are the rationals: every finite double is one, and the code only ever asks
  whether a number is zero or negative. Strings are lists of 8-bit characters, read as the
  code units U+0000 to U+00FF.
\<close>

datatype jsval =
    JUndefined
  | JNull
  | JBool bool
  | JNum rat
  | JStr string
  | JArr "jsval list"
  | JObj "(string \<times> jsval) list"

text \<open>\<open>!v\<close> is \<open>\<not> truthy v\<close>: undefined, null, false, 0 and the empty string are falsy.\<close>

fun truthy :: "jsval \<Rightarrow> bool" where
  "truthy JUndefined = False"
| "truthy JNull = False"
| "truthy (JBool b) = b"
| "truthy (JNum n) = (n \<noteq> 0)"
| "truthy (JStr s) = (s \<noteq> [])"
| "truthy (JArr xs) = True"
| "truthy (JObj kvs) = True"

text \<open>
  White space for \<open>String.prototype.trim\<close> and \<open>parseInt\<close>, within U+0000 to U+00FF:
  tab, line feed, vertical tab, form feed, carriage return, space, no-break space.
\<close>

definition is_ws :: "char \<Rightarrow> bool" where
  "is_ws c = (of_char c \<in> {9::nat, 10, 11, 12, 13, 32, 160})"

definition trim :: "string \<Rightarrow> string" where
  "trim s = rev (dropWhile is_ws (rev (dropWhile is_ws s)))"

text \<open>
  \<open>String.prototype.toLowerCase\<close> within U+0000 to U+00FF: A to Z and the capital
  letters U+00C0 to U+00DE (but not the multiplication sign U+00D7) move up by 32.
\<close>

definition lower_char :: "char \<Rightarrow> char" where
  "lower_char c =
     (let n = (of_char c :: nat)
      in if (65 \<le> n \<and> n \<le> 90) \<or> (192 \<le> n \<and> n \<le> 222 \<and> n \<noteq> 215)
         then char_of (n + 32) else c)"

definition toLowerCase :: "string \<Rightarrow> string" where
  "toLowerCase s = map lower_char s"

text \<open>\<open>hay.includes(needle)\<close>: the needle occurs at some position of the haystack.\<close>

fun includes_str :: "string \<Rightarrow> string \<Rightarrow> bool" where
  "includes_str [] needle = (needle = [])"
| "includes_str (c # cs) needle = (prefix needle (c # cs) \<or> includes_str cs needle)"

subsection \<open>Numbers in the pagination\<close>

text \<open>
  \<open>parseInt\<close> and the arithmetic on its result work on doubles. Every value that
  occurs there is a whole number, an infinity or NaN, so a number is modelled as one of
  these; \<open>Finite n\<close> stands for a double whose value is the integer \<open>n\<close>.
  \<open>to_double\<close> rounds an integer to the nearest double, ties to the even significand of
  53 bits, and overflows to an infinity from \<open>2^1024\<close> on. The sum, difference and
  product of two doubles are the exact results rounded once.
\<close>

datatype number = Finite int | PosInf | NegInf | NaN

definition to_double :: "int \<Rightarrow> number" where
  "to_double n =
     (let a = \<bar>n\<bar>
      in if a < 9007199254740992 then Finite n
         else (let e = nat (bitlen a) - 53;
                   q = a div 2 ^ e;
                   r = a mod 2 ^ e;
                   half = 2 ^ (e - 1);
                   q' = (if half < r \<or> (r = half \<and> odd q) then q + 1 else q);
                   m = q' * 2 ^ e
               in if 2 ^ 1024 \<le> m then (if n < 0 then NegInf else PosInf)
                  else Finite (if n < 0 then - m else m)))"

fun num_neg :: "number \<Rightarrow> number" where
  "num_neg (Finite n) = Finite (- n)"
| "num_neg PosInf = NegInf"
| "num_neg NegInf = PosInf"
| "num_neg NaN = NaN"

fun num_add :: "number \<Rightarrow> number \<Rightarrow> number" where
  "num_add (Finite a) (Finite b) = to_double (a + b)"
| "num_add NaN y = NaN"
| "num_add x NaN = NaN"
| "num_add PosInf NegInf = NaN"
| "num_add NegInf PosInf = NaN"
| "num_add PosInf y = PosInf"
| "num_add NegInf y = NegInf"
| "num_add x PosInf = PosInf"
| "num_add x NegInf = NegInf"

definition num_sub :: "number \<Rightarrow> number \<Rightarrow> number" where
  "num_sub x y = num_add x (num_neg y)"

fun num_mul :: "number \<Rightarrow> number \<Rightarrow> number" where
  "num_mul (Finite a) (Finite b) = to_double (a * b)"
| "num_mul NaN y = NaN"
| "num_mul x NaN = NaN"
| "num_mul (Finite a) PosInf = (if a = 0 then NaN else if 0 < a then PosInf else NegInf)"
| "num_mul (Finite a) NegInf = (if a = 0 then NaN else if 0 < a then NegInf else PosInf)"
| "num_mul PosInf (Finite b) = (if b = 0 then NaN else if 0 < b then PosInf else NegInf)"
| "num_mul NegInf (Finite b) = (if b = 0 then NaN else if 0 < b then NegInf else PosInf)"
| "num_mul PosInf PosInf = PosInf"
| "num_mul PosInf NegInf = NegInf"
| "num_mul NegInf PosInf = NegInf"
| "num_mul NegInf NegInf = PosInf"

text \<open>\<open>Math.max\<close> and \<open>Math.min\<close>: NaN if an argument is NaN.\<close>

fun num_le :: "number \<Rightarrow> number \<Rightarrow> bool" where
  "num_le NaN y = False"
| "num_le x NaN = False"
| "num_le NegInf y = True"
| "num_le x PosInf = True"
| "num_le PosInf y = False"
| "num_le x NegInf = False"
| "num_le (Finite a) (Finite b) = (a \<le> b)"

definition Math_max :: "number \<Rightarrow> number \<Rightarrow> number" where
  "Math_max x y = (if x = NaN \<or> y = NaN then NaN else if num_le x y then y else x)"

definition Math_min :: "number \<Rightarrow> number \<Rightarrow> number" where
  "Math_min x y = (if x = NaN \<or> y = NaN then NaN else if num_le x y then x else y)"

text \<open>\<open>JSON.stringify\<close> writes an infinity and NaN as \<open>null\<close>.\<close>

fun number_json :: "number \<Rightarrow> jsval" where
  "number_json (Finite n) = JNum (of_int n)"
| "number_json x = JNull"

text \<open>
  \<open>parseInt(s, 10)\<close>: skip leading white space, read an optional sign, then the longest
  run of decimal digits; no digit gives NaN, otherwise the double nearest to the integer
  that the digits denote.
\<close>

definition is_digit :: "char \<Rightarrow> bool" where
  "is_digit c = (48 \<le> (of_char c :: nat) \<and> (of_char c :: nat) \<le> 57)"

definition digit_value :: "char \<Rightarrow> int" where
  "digit_value c = int (of_char c) - 48"

definition digits_value :: "string \<Rightarrow> int" where
  "digits_value ds = foldl (\<lambda>a c. 10 * a + digit_value c) 0 ds"

definition sign_and_digits :: "string \<Rightarrow> bool \<times> string" where
  "sign_and_digits s =
     (let t = dropWhile is_ws s;
          neg = (case t of [] \<Rightarrow> False | c # _ \<Rightarrow> c = CHR ''-'');
          u = (case t of [] \<Rightarrow> [] | c # r \<Rightarrow> if c = CHR ''-'' \<or> c = CHR ''+'' then r else t)
      in (neg, takeWhile is_digit u))"

definition parseInt :: "string \<Rightarrow> number" where
  "parseInt s =
     (case sign_and_digits s of
        (neg, ds) \<Rightarrow>
          if ds = [] then NaN
          else to_double (if neg then - digits_value ds else digits_value ds))"

text \<open>
  \<open>xs.slice(start, end)\<close>: each index is made an integer (NaN is 0), a negative one
  counts from the end, both are clamped to the array, and an empty range gives the empty
  array.
\<close>

definition slice_index :: "nat \<Rightarrow> number \<Rightarrow> nat" where
  "slice_index len x =
     (case x of
        NaN \<Rightarrow> 0
      | NegInf \<Rightarrow> 0
      | PosInf \<Rightarrow> len
      | Finite n \<Rightarrow> if n < 0 then nat (max (int len + n) 0) else nat (min n (int len)))"

definition slice :: "'a list \<Rightarrow> number \<Rightarrow> number \<Rightarrow> 'a list" where
  "slice xs start stop =
     (let len = length xs;
          k = slice_index len start;
          fin = slice_index len stop
      in take (fin - k) (drop k xs))"

section \<open>Products and the seed data\<close>

record product =
  pid :: string
  pname :: string
  pdescription :: string
  pprice :: rat
  pcategory :: string
  pinStock :: bool

definition products :: "product list" where
  "products =
     [\<lparr>pid = ''1'', pname = ''Laptop'',
       pdescription = ''High-performance laptop with 16GB RAM'',
       pprice = 1200, pcategory = ''electronics'', pinStock = True\<rparr>,
      \<lparr>pid = ''2'', pname = ''Smartphone'',
       pdescription = ''Latest model with 128GB storage'',
       pprice = 800, pcategory = ''electronics'', pinStock = True\<rparr>,
      \<lparr>pid = ''3'', pname = ''Coffee Maker'',
       pdescription = ''Programmable coffee maker with timer'',
       pprice = 50, pcategory = ''kitchen'', pinStock = False\<rparr>]"

definition product_json :: "product \<Rightarrow> jsval" where
  "product_json p =
     JObj [(''id'', JStr (pid p)), (''name'', JStr (pname p)),
           (''description'', JStr (pdescription p)), (''price'', JNum (pprice p)),
           (''category'', JStr (pcategory p)), (''inStock'', JBool (pinStock p))]"

section \<open>Errors, environment and requests\<close>

text \<open>
  The three error classes of the rich server carry a message; their constructors fix
  \<open>name\<close> and \<open>statusCode\<close>. An error of any other class (thrown by the body parser,
  the framework or the runtime) is kept as far as the error handler reads it:
  \<open>err.name\<close>, \<open>err.message\<close>, \<open>err.status\<close> and whether it has a \<open>body\<close>
  property.
\<close>

datatype foreign_error = Foreign string string "nat option" bool

datatype js_error =
    NotFoundError string
  | ValidationError string
  | AuthenticationError string
  | OtherError foreign_error

fun err_name :: "js_error \<Rightarrow> string" where
  "err_name (NotFoundError m) = ''NotFoundError''"
| "err_name (ValidationError m) = ''ValidationError''"
| "err_name (AuthenticationError m) = ''AuthenticationError''"
| "err_name (OtherError (Foreign n m st hb)) = n"

fun err_message :: "js_error \<Rightarrow> string" where
  "err_message (NotFoundError m) = m"
| "err_message (ValidationError m) = m"
| "err_message (AuthenticationError m) = m"
| "err_message (OtherError (Foreign n m st hb)) = m"

text \<open>
  What a handler reads besides the request: \<open>process.env.API_KEY\<close> and
  \<open>process.env.NODE_ENV\<close>, the clock (\<open>new Date().toISOString()\<close>), the value that
  \<open>uuidv4()\<close> returns, and the framework's decoding of a captured path parameter.
\<close>

record env =
  API_KEY :: "string option"
  NODE_ENV :: "string option"
  now :: string
  uuid :: string
  decode_param :: "string \<Rightarrow> string option"

text \<open>
  A request as the middleware sees it: method and url, the parsed query string, the
  \<open>x-api-key\<close> header, and what the JSON body parser made of the body (an error it
  passes on, or the parsed object).
\<close>

record request =
  req_method :: string
  req_url :: string
  req_query :: "string \<rightharpoonup> string"
  req_apikey :: "string option"
  req_body :: "foreign_error + (string \<rightharpoonup> jsval)"

datatype payload = Json jsval | Html string

record response =
  status :: nat
  body :: payload

definition field :: "(string \<rightharpoonup> jsval) \<Rightarrow> string \<Rightarrow> jsval" where
  "field b k = (case b k of None \<Rightarrow> JUndefined | Some v \<Rightarrow> v)"

section \<open>The rich server: middleware\<close>

text \<open>
  \<open>validateProduct\<close> throws a \<open>ValidationError\<close> into \<open>next\<close> at the first failing
  check, or calls \<open>next()\<close>, here \<open>None\<close>. A test
  \<open>typeof v !== 'string' || v.trim().length === 0\<close> is a case on the value.
\<close>

definition validateProduct :: "(string \<rightharpoonup> jsval) \<Rightarrow> js_error option" where
  "validateProduct b =
     (let name = field b ''name''; description = field b ''description'';
          price = field b ''price''; category = field b ''category'';
          inStock = field b ''inStock''
      in if \<not> truthy name \<or> \<not> truthy description \<or> price = JUndefined \<or> \<not> truthy category
         then Some (ValidationError
           ''Missing required fields: name, description, price, category are required'')
         else if (case name of JStr s \<Rightarrow> length (trim s) = 0 | _ \<Rightarrow> True)
         then Some (ValidationError ''name must be a non-empty string'')
         else if (case description of JStr s \<Rightarrow> False | _ \<Rightarrow> True)
         then Some (ValidationError ''description must be a string'')
         else if (case price of JNum n \<Rightarrow> n < 0 | _ \<Rightarrow> True)
         then Some (ValidationError ''price must be a positive number'')
         else if (case category of JStr s \<Rightarrow> length (trim s) = 0 | _ \<Rightarrow> True)
         then Some (ValidationError ''category must be a non-empty string'')
         else if (case inStock of JUndefined \<Rightarrow> False | JBool x \<Rightarrow> False | _ \<Rightarrow> True)
         then Some (ValidationError ''inStock must be a boolean'')
         else None)"

definition expectedApiKey :: "env \<Rightarrow> string" where
  "expectedApiKey e =
     (case API_KEY e of None \<Rightarrow> ''your-secret-api-key''
      | Some k \<Rightarrow> if k = [] then ''your-secret-api-key'' else k)"

definition authenticateApiKey :: "env \<Rightarrow> request \<Rightarrow> js_error option" where
  "authenticateApiKey e req =
     (case req_apikey req of
        None \<Rightarrow> Some (AuthenticationError ''API key required in x-api-key header'')
      | Some apiKey \<Rightarrow>
          if apiKey = [] then Some (AuthenticationError ''API key required in x-api-key header'')
          else if apiKey \<noteq> expectedApiKey e then Some (AuthenticationError ''Invalid API key'')
          else None)"

text \<open>The global error-handling middleware. Its log line is not modelled.\<close>

definition error_json :: "string \<Rightarrow> string \<Rightarrow> nat \<Rightarrow> env \<Rightarrow> request \<Rightarrow> jsval" where
  "error_json name message statusCode e req =
     JObj [(''error'',
       JObj [(''name'', JStr name), (''message'', JStr message),
             (''statusCode'', JNum (of_nat statusCode)), (''timestamp'', JStr (now e)),
             (''path'', JStr (req_url req)), (''method'', JStr (req_method req))])]"

definition errorHandler :: "env \<Rightarrow> request \<Rightarrow> js_error \<Rightarrow> response" where
  "errorHandler e req err =
     (case err of
        NotFoundError m \<Rightarrow>
          \<lparr>status = 404, body = Json (error_json ''NotFoundError'' m 404 e req)\<rparr>
      | ValidationError m \<Rightarrow>
          \<lparr>status = 400, body = Json (error_json ''ValidationError'' m 400 e req)\<rparr>
      | AuthenticationError m \<Rightarrow>
          \<lparr>status = 401, body = Json (error_json ''AuthenticationError'' m 401 e req)\<rparr>
      | OtherError (Foreign n m st hb) \<Rightarrow>
          if n = ''CastError''
          then \<lparr>status = 400,
                body = Json (error_json ''ValidationError'' ''Invalid ID format'' 400 e req)\<rparr>
          else if n = ''SyntaxError'' \<and> st = Some 400 \<and> hb
          then \<lparr>status = 400,
                body = Json (error_json ''ValidationError''
                               ''Invalid JSON format in request body'' 400 e req)\<rparr>
          else \<lparr>status = 500,
                body = Json (error_json ''InternalServerError''
                               (if NODE_ENV e = Some ''production''
                                then ''Something went wrong on our end'' else m)
                               500 e req)\<rparr>)"

section \<open>The rich server: handlers\<close>

subsection \<open>GET /api/products\<close>

text \<open>\<open>x || d\<close> for a number \<open>x\<close>: NaN and 0 are falsy.\<close>

definition or_default :: "number \<Rightarrow> number \<Rightarrow> number" where
  "or_default x d = (if x = NaN \<or> x = Finite 0 then d else x)"

definition pageNum :: "(string \<rightharpoonup> string) \<Rightarrow> number" where
  "pageNum query =
     (let page = (case query ''page'' of None \<Rightarrow> ''1'' | Some s \<Rightarrow> s)
      in Math_max (or_default (parseInt page) (Finite 1)) (Finite 1))"

definition limitNum :: "(string \<rightharpoonup> string) \<Rightarrow> number" where
  "limitNum query =
     (let limit = (case query ''limit'' of None \<Rightarrow> ''10'' | Some s \<Rightarrow> s)
      in Math_min (Math_max (or_default (parseInt limit) (Finite 10)) (Finite 1)) (Finite 100))"

text \<open>
  The two filters, in the order of the handler. \<open>if (category)\<close> and \<open>if (q)\<close> are
  truthiness tests: a parameter that is absent or the empty string filters nothing.
\<close>

definition filterResults :: "product list \<Rightarrow> (string \<rightharpoonup> string) \<Rightarrow> product list" where
  "filterResults ps query =
     (let results = ps;
          results = (case query ''category'' of
                       None \<Rightarrow> results
                     | Some category \<Rightarrow>
                         if category = [] then results
                         else filter (\<lambda>p. toLowerCase (pcategory p) = toLowerCase category)
                                results);
          results = (case query ''q'' of
                       None \<Rightarrow> results
                     | Some q \<Rightarrow>
                         if q = [] then results
                         else (let qLower = toLowerCase q
                               in filter (\<lambda>p. includes_str (toLowerCase (pname p)) qLower)
                                    results))
      in results)"

record envelope =
  epage :: number
  elimit :: number
  etotal :: nat
  edata :: "product list"

definition listProducts :: "product list \<Rightarrow> (string \<rightharpoonup> string) \<Rightarrow> envelope" where
  "listProducts ps query =
     (let results = filterResults ps query;
          pn = pageNum query;
          ln = limitNum query;
          total = length results;
          start = num_mul (num_sub pn (Finite 1)) ln;
          dat = slice results start (num_add start ln)
      in \<lparr>epage = pn, elimit = ln, etotal = total, edata = dat\<rparr>)"

definition envelope_json :: "envelope \<Rightarrow> jsval" where
  "envelope_json v =
     JObj [(''page'', number_json (epage v)), (''limit'', number_json (elimit v)),
           (''total'', JNum (of_nat (etotal v))), (''data'', JArr (map product_json (edata v)))]"

subsection \<open>GET /api/products/stats\<close>

text \<open>
  The accumulator of the \<open>reduce\<close> starts as the object literal \<open>{}\<close>, which inherits
  from \<open>Object.prototype\<close>. Reading a key that is not an own property finds the inherited
  member when the key is one of the prototype's names: a function, or for \<open>__proto__\<close>
  the prototype object itself. Both are truthy, so \<open>(acc[k] || 0) + 1\<close> appends
  \<open>1\<close> to their text. \<open>inherited k\<close> is that text.
\<close>

datatype cval = CNum nat | CStr string

definition native_function :: "string \<Rightarrow> string" where
  "native_function f = ''function '' @ f @ ''() { [native code] }''"

definition inherited :: "string \<Rightarrow> string option" where
  "inherited k =
     (if k = ''__proto__'' then Some ''[object Object]''
      else if k = ''constructor'' then Some (native_function ''Object'')
      else if k \<in> set [''toString'', ''toLocaleString'', ''valueOf'', ''hasOwnProperty'',
                       ''isPrototypeOf'', ''propertyIsEnumerable'', ''__defineGetter__'',
                       ''__defineSetter__'', ''__lookupGetter__'', ''__lookupSetter__'']
      then Some (native_function k)
      else None)"

text \<open>
  Own properties are kept in the order in which \<open>JSON.stringify\<close> lists them: array
  indices first, ascending, then the other keys as created.
\<close>

definition is_index :: "string \<Rightarrow> bool" where
  "is_index k =
     (k = ''0'' \<or> (k \<noteq> [] \<and> list_all is_digit k \<and> hd k \<noteq> CHR ''0''
                   \<and> digits_value k < 4294967295))"

fun insert_index :: "(string \<times> cval) list \<Rightarrow> string \<Rightarrow> cval \<Rightarrow> (string \<times> cval) list" where
  "insert_index [] k v = [(k, v)]"
| "insert_index ((k', v') # rest) k v =
     (if \<not> is_index k' \<or> digits_value k < digits_value k'
      then (k, v) # (k', v') # rest
      else (k', v') # insert_index rest k v)"

definition set_own :: "(string \<times> cval) list \<Rightarrow> string \<Rightarrow> cval \<Rightarrow> (string \<times> cval) list" where
  "set_own acc k v =
     (if is_index k \<and> map_of acc k = None then insert_index acc k v
      else AList.update k v acc)"

text \<open>
  One step of the reducer, \<open>acc[p.category] = (acc[p.category] || 0) + 1\<close>. Assigning
  a string to \<open>__proto__\<close> goes to the prototype's setter, which ignores it.
\<close>

definition count_step :: "(string \<times> cval) list \<Rightarrow> product \<Rightarrow> (string \<times> cval) list" where
  "count_step acc p =
     (let k = pcategory p;
          v = (case map_of acc k of
                 Some (CNum n) \<Rightarrow> CNum (n + 1)
               | Some (CStr s) \<Rightarrow> if s = [] then CNum 1 else CStr (s @ ''1'')
               | None \<Rightarrow> (case inherited k of None \<Rightarrow> CNum 1 | Some f \<Rightarrow> CStr (f @ ''1'')))
      in if k = ''__proto__'' then acc else set_own acc k v)"

record stats =
  stotal :: nat
  sinStock :: nat
  sbyCategory :: "(string \<times> cval) list"

definition getStats :: "product list \<Rightarrow> stats" where
  "getStats ps =
     \<lparr>stotal = length ps,
      sinStock = length (filter pinStock ps),
      sbyCategory = foldl count_step [] ps\<rparr>"

definition cval_json :: "cval \<Rightarrow> jsval" where
  "cval_json v = (case v of CNum n \<Rightarrow> JNum (of_nat n) | CStr s \<Rightarrow> JStr s)"

definition stats_json :: "stats \<Rightarrow> jsval" where
  "stats_json s =
     JObj [(''total'', JNum (of_nat (stotal s))), (''inStock'', JNum (of_nat (sinStock s))),
           (''byCategory'', JObj (map (\<lambda>(k, v). (k, cval_json v)) (sbyCategory s)))]"

subsection \<open>GET, POST, PUT and DELETE of one product\<close>

definition quote :: "string \<Rightarrow> string" where
  "quote s = [CHR 0x27] @ s @ [CHR 0x27]"

definition not_found :: "string \<Rightarrow> js_error" where
  "not_found i = NotFoundError (''Product with id '' @ quote i @ '' not found'')"

fun findIndex :: "('a \<Rightarrow> bool) \<Rightarrow> 'a list \<Rightarrow> nat option" where
  "findIndex P [] = None"
| "findIndex P (x # xs) = (if P x then Some 0 else map_option Suc (findIndex P xs))"

definition getProduct :: "product list \<Rightarrow> string \<Rightarrow> js_error + product" where
  "getProduct ps i =
     (case find (\<lambda>p. pid p = i) ps of None \<Rightarrow> Inl (not_found i) | Some p \<Rightarrow> Inr p)"

text \<open>
  The object literal that the POST and PUT handlers build from the body, with
  \<open>inStock = true\<close> when the body has none. It is defined on the bodies that
  \<open>validateProduct\<close> lets through, the only ones that reach the handlers.
\<close>

fun the_string :: "jsval \<Rightarrow> string option" where
  "the_string (JStr s) = Some s"
| "the_string v = None"

fun the_number :: "jsval \<Rightarrow> rat option" where
  "the_number (JNum n) = Some n"
| "the_number v = None"

fun inStock_or_true :: "jsval \<Rightarrow> bool option" where
  "inStock_or_true JUndefined = Some True"
| "inStock_or_true (JBool x) = Some x"
| "inStock_or_true v = None"

definition newProduct :: "string \<Rightarrow> (string \<rightharpoonup> jsval) \<Rightarrow> product option" where
  "newProduct i b =
     (case (the_string (field b ''name''), the_string (field b ''description''),
            the_number (field b ''price''), the_string (field b ''category''),
            inStock_or_true (field b ''inStock'')) of
        (Some name, Some description, Some price, Some category, Some inStock) \<Rightarrow>
          Some \<lparr>pid = i, pname = trim name, pdescription = trim description,
                pprice = price, pcategory = trim category, pinStock = inStock\<rparr>
      | _ \<Rightarrow> None)"

definition type_error :: js_error where
  "type_error = OtherError (Foreign ''TypeError'' ''name.trim is not a function'' None False)"

definition message_json :: "string \<Rightarrow> product \<Rightarrow> jsval" where
  "message_json m p = JObj [(''message'', JStr m), (''product'', product_json p)]"

text \<open>
  Each route runs its middleware in order; a thrown error leaves the store as it was,
  since every handler writes to the store only after its last throw.
\<close>

definition createProduct ::
  "env \<Rightarrow> product list \<Rightarrow> request \<Rightarrow> (string \<rightharpoonup> jsval) \<Rightarrow> js_error + (response \<times> product list)" where
  "createProduct e ps req b =
     (case authenticateApiKey e req of
        Some err \<Rightarrow> Inl err
      | None \<Rightarrow>
          (case validateProduct b of
             Some err \<Rightarrow> Inl err
           | None \<Rightarrow>
               (case newProduct (uuid e) b of
                  None \<Rightarrow> Inl type_error
                | Some p \<Rightarrow>
                    Inr (\<lparr>status = 201,
                          body = Json (message_json ''Product created successfully'' p)\<rparr>,
                         ps @ [p]))))"

definition updateProduct ::
  "env \<Rightarrow> product list \<Rightarrow> request \<Rightarrow> (string \<rightharpoonup> jsval) \<Rightarrow> string
     \<Rightarrow> js_error + (response \<times> product list)" where
  "updateProduct e ps req b i =
     (case authenticateApiKey e req of
        Some err \<Rightarrow> Inl err
      | None \<Rightarrow>
          (case validateProduct b of
             Some err \<Rightarrow> Inl err
           | None \<Rightarrow>
               (case findIndex (\<lambda>p. pid p = i) ps of
                  None \<Rightarrow> Inl (not_found i)
                | Some productIndex \<Rightarrow>
                    (case newProduct i b of
                       None \<Rightarrow> Inl type_error
                     | Some p \<Rightarrow>
                         Inr (\<lparr>status = 200,
                               body = Json (message_json ''Product updated successfully'' p)\<rparr>,
                              ps[productIndex := p])))))"

definition deleteProduct ::
  "env \<Rightarrow> product list \<Rightarrow> request \<Rightarrow> string \<Rightarrow> js_error + (response \<times> product list)" where
  "deleteProduct e ps req i =
     (case authenticateApiKey e req of
        Some err \<Rightarrow> Inl err
      | None \<Rightarrow>
          (case findIndex (\<lambda>p. pid p = i) ps of
             None \<Rightarrow> Inl (not_found i)
           | Some productIndex \<Rightarrow>
               Inr (\<lparr>status = 200,
                     body = Json (message_json ''Product deleted successfully''
                                    (ps ! productIndex))\<rparr>,
                    take productIndex ps @ drop (Suc productIndex) ps)))"

section \<open>The rich server: routes in registration order\<close>

text \<open>
  The framework tries the routes in the order in which the file registers them and runs
  the first whose path and method match. A route path is a list of literal segments and
  \<open>:id\<close> parameters; literals match without regard to case, a parameter matches one
  non-empty segment, and one trailing slash is allowed. A request for HEAD is served by
  the GET route. A captured parameter is decoded before the method is looked at, and a
  failure to decode goes to the error handler.
\<close>

datatype seg = Lit string | Param

datatype handler =
  Root | ListProducts | Stats | GetProduct | CreateProduct | UpdateProduct | DeleteProduct

definition routes :: "(string \<times> seg list \<times> handler) list" where
  "routes =
     [(''get'', [], Root),
      (''get'', [Lit ''api'', Lit ''products''], ListProducts),
      (''get'', [Lit ''api'', Lit ''products'', Lit ''stats''], Stats),
      (''get'', [Lit ''api'', Lit ''products'', Param], GetProduct),
      (''post'', [Lit ''api'', Lit ''products''], CreateProduct),
      (''put'', [Lit ''api'', Lit ''products'', Param], UpdateProduct),
      (''delete'', [Lit ''api'', Lit ''products'', Param], DeleteProduct)]"

fun split_on :: "char \<Rightarrow> string \<Rightarrow> string list" where
  "split_on c [] = [[]]"
| "split_on c (x # xs) =
     (if x = c then [] # split_on c xs
      else (case split_on c xs of [] \<Rightarrow> [[x]] | r # rs \<Rightarrow> (x # r) # rs))"

definition pathname :: "string \<Rightarrow> string" where
  "pathname url = takeWhile (\<lambda>c. c \<noteq> CHR ''?'') url"

fun match_segs :: "seg list \<Rightarrow> string list \<Rightarrow> string list option" where
  "match_segs [] [] = Some []"
| "match_segs (Lit l # pat) (s # ss) =
     (if toLowerCase s = toLowerCase l then match_segs pat ss else None)"
| "match_segs (Param # pat) (s # ss) =
     (if s = [] then None else map_option ((#) s) (match_segs pat ss))"
| "match_segs pat ss = None"

definition match_path :: "seg list \<Rightarrow> string \<Rightarrow> string list option" where
  "match_path pat path =
     (case split_on (CHR ''/'') path of
        [] \<Rightarrow> None
      | first # rest \<Rightarrow>
          if first \<noteq> [] then None
          else match_segs pat (if rest \<noteq> [] \<and> last rest = [] then butlast rest else rest))"

definition handles_method :: "string \<Rightarrow> string \<Rightarrow> bool" where
  "handles_method route_method m =
     (let name = toLowerCase m
      in (if name = ''head'' then ''get'' else name) = route_method)"

definition decode_error :: "string \<Rightarrow> js_error" where
  "decode_error v =
     OtherError (Foreign ''URIError'' (''Failed to decode param '' @ quote v) (Some 400) False)"

fun decode_all :: "env \<Rightarrow> string list \<Rightarrow> js_error + string list" where
  "decode_all e [] = Inr []"
| "decode_all e (v # vs) =
     (case decode_param e v of
        None \<Rightarrow> Inl (decode_error v)
      | Some d \<Rightarrow> (case decode_all e vs of Inl err \<Rightarrow> Inl err | Inr ds \<Rightarrow> Inr (d # ds)))"

fun find_route ::
  "env \<Rightarrow> (string \<times> seg list \<times> handler) list \<Rightarrow> string \<Rightarrow> string
     \<Rightarrow> js_error + (handler \<times> string list) option" where
  "find_route e [] m path = Inr None"
| "find_route e ((rm, pat, h) # rs) m path =
     (case match_path pat path of
        None \<Rightarrow> find_route e rs m path
      | Some caps \<Rightarrow>
          (case decode_all e caps of
             Inl err \<Rightarrow> Inl err
           | Inr params \<Rightarrow>
               if handles_method rm m then Inr (Some (h, params))
               else find_route e rs m path))"

text \<open>
  The routes that read \<open>req.params.id\<close> capture exactly one parameter, so the
  concatenation of the captures is that parameter.
\<close>

definition run_handler ::
  "env \<Rightarrow> product list \<Rightarrow> request \<Rightarrow> (string \<rightharpoonup> jsval) \<Rightarrow> handler \<Rightarrow> string list
     \<Rightarrow> js_error + (response \<times> product list)" where
  "run_handler e ps req b h params =
     (case h of
        Root \<Rightarrow> Inr (\<lparr>status = 200, body = Html ''Hello World!''\<rparr>, ps)
      | ListProducts \<Rightarrow>
          Inr (\<lparr>status = 200,
                body = Json (envelope_json (listProducts ps (req_query req)))\<rparr>, ps)
      | Stats \<Rightarrow> Inr (\<lparr>status = 200, body = Json (stats_json (getStats ps))\<rparr>, ps)
      | GetProduct \<Rightarrow>
          (case getProduct ps (concat params) of
             Inl err \<Rightarrow> Inl err
           | Inr p \<Rightarrow> Inr (\<lparr>status = 200, body = Json (product_json p)\<rparr>, ps))
      | CreateProduct \<Rightarrow> createProduct e ps req b
      | UpdateProduct \<Rightarrow> updateProduct e ps req b (concat params)
      | DeleteProduct \<Rightarrow> deleteProduct e ps req (concat params))"

text \<open>
  A thrown error reaches \<open>errorHandler\<close> through \<open>next\<close> and leaves the store as it
  was; otherwise the handler's response goes out.
\<close>

definition respond ::
  "env \<Rightarrow> product list \<Rightarrow> request \<Rightarrow> js_error + (response \<times> product list)
     \<Rightarrow> response \<times> product list" where
  "respond e ps req x =
     (case x of Inl err \<Rightarrow> (errorHandler e req err, ps) | Inr rp \<Rightarrow> rp)"

text \<open>
  The application: the body parser first, whose error skips every route, then the route
  that matches. \<open>None\<close> is a request that no route of the file answers and that is left
  to the framework.
\<close>

definition app :: "env \<Rightarrow> product list \<Rightarrow> request \<Rightarrow> response option \<times> product list" where
  "app e ps req =
     (case req_body req of
        Inl err \<Rightarrow> (Some (errorHandler e req (OtherError err)), ps)
      | Inr b \<Rightarrow>
          (case find_route e routes (req_method req) (pathname (req_url req)) of
             Inl err \<Rightarrow> (Some (errorHandler e req err), ps)
           | Inr None \<Rightarrow> (None, ps)
           | Inr (Some (h, params)) \<Rightarrow>
               (case respond e ps req (run_handler e ps req b h params) of
                  (r, ps') \<Rightarrow> (Some r, ps'))))"

section \<open>Loading the server files\<close>

text \<open>
  A server file runs its top-level statements in order when it is loaded. A \<open>const\<close>,
  \<open>let\<close> or \<open>class\<close> declaration puts its name in scope only when the statement is
  reached; a statement that evaluates a name that is not yet in scope throws a
  ReferenceError, which ends the load: nothing after it runs, and \<open>app.listen\<close> is
  never called. The bodies of the arrow functions are not evaluated at load. A statement
  is given by the names it evaluates, in the order of evaluation; \<open>load\<close> returns the
  statements with an effect that ran, or the name whose evaluation threw.
\<close>

datatype statement = Declare string "string list" | Evaluate string "string list"

fun load :: "string list \<Rightarrow> statement list \<Rightarrow> string + string list" where
  "load scope [] = Inr []"
| "load scope (Declare x reads # rest) =
     (case find (\<lambda>r. r \<notin> set scope) reads of
        Some r \<Rightarrow> Inl r
      | None \<Rightarrow> load (x # scope) rest)"
| "load scope (Evaluate what reads # rest) =
     (case find (\<lambda>r. r \<notin> set scope) reads of
        Some r \<Rightarrow> Inl r
      | None \<Rightarrow> (case load scope rest of Inl r \<Rightarrow> Inl r | Inr effects \<Rightarrow> Inr (what # effects)))"

definition globals :: "string list" where
  "globals = [''require'', ''process'', ''module'', ''Error'']"

text \<open>The rich server declares its classes and middleware before the routes.\<close>

definition rich_module :: "statement list" where
  "rich_module =
     [Declare ''express'' [''require''],
      Declare ''bodyParser'' [''require''],
      Declare ''uuidv4'' [''require''],
      Declare ''NotFoundError'' [''Error''],
      Declare ''ValidationError'' [''Error''],
      Declare ''AuthenticationError'' [''Error''],
      Declare ''asyncHandler'' [],
      Declare ''app'' [''express''],
      Declare ''PORT'' [''process''],
      Evaluate ''use bodyParser.json'' [''app'', ''bodyParser''],
      Declare ''products'' [],
      Evaluate ''use logger'' [''app''],
      Declare ''validateProduct'' [],
      Declare ''authenticateApiKey'' [],
      Evaluate ''get /'' [''app''],
      Evaluate ''get /api/products'' [''app'', ''asyncHandler''],
      Evaluate ''get /api/products/stats'' [''app'', ''asyncHandler''],
      Evaluate ''get /api/products/:id'' [''app'', ''asyncHandler''],
      Evaluate ''post /api/products''
        [''app'', ''authenticateApiKey'', ''validateProduct'', ''asyncHandler''],
      Evaluate ''put /api/products/:id''
        [''app'', ''authenticateApiKey'', ''validateProduct'', ''asyncHandler''],
      Evaluate ''delete /api/products/:id'' [''app'', ''authenticateApiKey'', ''asyncHandler''],
      Evaluate ''use error handler'' [''app''],
      Evaluate ''listen'' [''app'', ''PORT''],
      Evaluate ''module.exports'' [''module'', ''app'']]"

text \<open>
  The lean server registers its routes first and declares \<open>validateProduct\<close> and
  \<open>authenticateApiKey\<close> below them.
\<close>

definition lean_module :: "statement list" where
  "lean_module =
     [Declare ''express'' [''require''],
      Declare ''bodyParser'' [''require''],
      Declare ''uuidv4'' [''require''],
      Declare ''app'' [''express''],
      Declare ''PORT'' [''process''],
      Evaluate ''use bodyParser.json'' [''app'', ''bodyParser''],
      Declare ''products'' [],
      Evaluate ''get /'' [''app''],
      Evaluate ''get /api/products'' [''app''],
      Evaluate ''get /api/products/:id'' [''app''],
      Evaluate ''post /api/products'' [''app'', ''authenticateApiKey'', ''validateProduct''],
      Evaluate ''put /api/products/:id'' [''app'', ''authenticateApiKey'', ''validateProduct''],
      Evaluate ''delete /api/products/:id'' [''app'', ''authenticateApiKey''],
      Evaluate ''use logger'' [''app''],
      Declare ''validateProduct'' [],
      Declare ''authenticateApiKey'' [],
      Evaluate ''use error handler'' [''app''],
      Evaluate ''listen'' [''app'', ''PORT''],
      Evaluate ''module.exports'' [''module'', ''app'']]"

section \<open>The database-backed router\<close>

text \<open>
  \<open>router.post\<close> checks the body with truthiness tests, hands the fields of the body
  as they are to \<open>new Product\<close>, saves the document and answers with it. The schema of
  \<open>Product\<close> declares String, Number and Boolean paths, all required, with no other
  option (no trim, no minimum). A value that already has the type of its path is kept as
  it is. What the library makes of any other value (a cast to the type, or a failure that
  makes \<open>save()\<close> throw), whether the database accepts the document, and how the
  saved document is written as JSON (with its \<open>_id\<close> and \<open>__v\<close>) are parameters.
\<close>

record document =
  did :: string
  dname :: jsval
  ddescription :: jsval
  dprice :: jsval
  dcategory :: jsval
  dinStock :: jsval

record mongoose =
  cast_String :: "jsval \<Rightarrow> jsval option"
  cast_Number :: "jsval \<Rightarrow> jsval option"
  cast_Boolean :: "jsval \<Rightarrow> jsval option"
  save_succeeds :: "document \<Rightarrow> bool"
  toJSON :: "document \<Rightarrow> jsval"

definition schema_String :: "mongoose \<Rightarrow> jsval \<Rightarrow> jsval option" where
  "schema_String m v = (case v of JStr s \<Rightarrow> Some (JStr s) | _ \<Rightarrow> cast_String m v)"

definition schema_Number :: "mongoose \<Rightarrow> jsval \<Rightarrow> jsval option" where
  "schema_Number m v = (case v of JNum n \<Rightarrow> Some (JNum n) | _ \<Rightarrow> cast_Number m v)"

definition schema_Boolean :: "mongoose \<Rightarrow> jsval \<Rightarrow> jsval option" where
  "schema_Boolean m v = (case v of JBool x \<Rightarrow> Some (JBool x) | _ \<Rightarrow> cast_Boolean m v)"

text \<open>\<open>None\<close> is a document that \<open>save()\<close> rejects because a value did not cast.\<close>

definition new_Product ::
  "mongoose \<Rightarrow> string \<Rightarrow> jsval \<Rightarrow> jsval \<Rightarrow> jsval \<Rightarrow> jsval \<Rightarrow> jsval \<Rightarrow> document option" where
  "new_Product m i name description price category inStock =
     (case (schema_String m name, schema_String m description, schema_Number m price,
            schema_String m category, schema_Boolean m inStock) of
        (Some n, Some d, Some p, Some c, Some s) \<Rightarrow>
          Some \<lparr>did = i, dname = n, ddescription = d, dprice = p, dcategory = c,
                dinStock = s\<rparr>
      | _ \<Rightarrow> None)"

definition server_error :: response where
  "server_error = \<lparr>status = 500, body = Json (JObj [(''message'', JStr ''Server Error'')])\<rparr>"

definition router_post ::
  "env \<Rightarrow> mongoose \<Rightarrow> document list \<Rightarrow> (string \<rightharpoonup> jsval) \<Rightarrow> response \<times> document list" where
  "router_post e m coll b =
     (let name = field b ''name''; description = field b ''description'';
          price = field b ''price''; category = field b ''category'';
          inStock = field b ''inStock''
      in if \<not> truthy name \<or> \<not> truthy description \<or> \<not> truthy price \<or> \<not> truthy category
            \<or> inStock = JUndefined
         then (\<lparr>status = 400,
                 body = Json (JObj [(''message'', JStr ''All fields are required'')])\<rparr>, coll)
         else (case new_Product m (uuid e) name description price category inStock of
                 None \<Rightarrow> (server_error, coll)
               | Some newDoc \<Rightarrow>
                   if save_succeeds m newDoc
                   then (\<lparr>status = 201, body = Json (toJSON m newDoc)\<rparr>,
                         coll @ [newDoc])
                   else (server_error, coll)))"

section \<open>Concrete requests\<close>

definition query_none :: "string \<rightharpoonup> string" where
  "query_none = Map.empty"

definition query_words :: "string \<rightharpoonup> string" where
  "query_words = [''page'' \<mapsto> ''abc'', ''limit'' \<mapsto> ''many'']"

definition query_out_of_range :: "string \<rightharpoonup> string" where
  "query_out_of_range = [''page'' \<mapsto> ''-3'', ''limit'' \<mapsto> ''500'']"

definition query_prefix :: "string \<rightharpoonup> string" where
  "query_prefix = [''page'' \<mapsto> ''2abc'']"

definition query_rounded :: "string \<rightharpoonup> string" where
  "query_rounded = [''page'' \<mapsto> ''9007199254740993'']"

definition query_electronics_first :: "string \<rightharpoonup> string" where
  "query_electronics_first = [''category'' \<mapsto> ''electronics'', ''limit'' \<mapsto> ''1'']"

definition query_page1 :: "string \<rightharpoonup> string" where
  "query_page1 = [''limit'' \<mapsto> ''2'', ''page'' \<mapsto> ''1'']"

definition query_page2 :: "string \<rightharpoonup> string" where
  "query_page2 = [''limit'' \<mapsto> ''2'', ''page'' \<mapsto> ''2'']"

definition query_empty_category :: "string \<rightharpoonup> string" where
  "query_empty_category = [''category'' \<mapsto> []]"

definition query_electronics_lap :: "string \<rightharpoonup> string" where
  "query_electronics_lap = [''category'' \<mapsto> ''ELECTRONICS'', ''q'' \<mapsto> ''LAP'']"

definition category_equals :: "string \<Rightarrow> product \<Rightarrow> bool" where
  "category_equals c p = (toLowerCase (pcategory p) = toLowerCase c)"

definition name_contains :: "string \<Rightarrow> product \<Rightarrow> bool" where
  "name_contains q p = sublist (toLowerCase q) (toLowerCase (pname p))"

definition category_selected :: "(string \<rightharpoonup> string) \<Rightarrow> product \<Rightarrow> bool" where
  "category_selected query p =
     (case query ''category'' of None \<Rightarrow> True | Some c \<Rightarrow> c = [] \<or> category_equals c p)"

definition name_selected :: "(string \<rightharpoonup> string) \<Rightarrow> product \<Rightarrow> bool" where
  "name_selected query p =
     (case query ''q'' of None \<Rightarrow> True | Some q \<Rightarrow> name_contains q p)"

definition env_test :: env where
  "env_test =
     \<lparr>API_KEY = None, NODE_ENV = None, now = ''2025-01-01T00:00:00.000Z'',
      uuid = ''110ec58a-a0f2-4ac4-8393-c866d813b8d1'', decode_param = Some\<rparr>"

definition request_post :: request where
  "request_post =
     \<lparr>req_method = ''POST'', req_url = ''/api/products'', req_query = Map.empty,
      req_apikey = Some ''your-secret-api-key'', req_body = Inr Map.empty\<rparr>"

definition body_constructor :: "string \<rightharpoonup> jsval" where
  "body_constructor =
     [''name'' \<mapsto> JStr ''Builder'', ''description'' \<mapsto> JStr ''A set of bricks'',
      ''price'' \<mapsto> JNum 10, ''category'' \<mapsto> JStr ''constructor'']"

definition product_constructor :: product where
  "product_constructor =
     \<lparr>pid = ''110ec58a-a0f2-4ac4-8393-c866d813b8d1'', pname = ''Builder'',
      pdescription = ''A set of bricks'', pprice = 10, pcategory = ''constructor'',
      pinStock = True\<rparr>"

text \<open>The count that the specification asks of \<open>byCategory\<close>.\<close>

definition category_count :: "string \<Rightarrow> product list \<Rightarrow> nat" where
  "category_count c ps = length (filter (\<lambda>p. pcategory p = c) ps)"

definition all_numbers :: "(string \<times> cval) list \<Rightarrow> bool" where
  "all_numbers acc = list_all (\<lambda>(k, v). case v of CNum n \<Rightarrow> 0 < n | CStr s \<Rightarrow> False) acc"

definition number_at :: "(string \<times> cval) list \<Rightarrow> string \<Rightarrow> nat" where
  "number_at acc c = (case map_of acc c of Some (CNum n) \<Rightarrow> n | _ \<Rightarrow> 0)"

text \<open>
  A payload as the specification wants it: name and category are strings that are not
  blank, the description is a string that is not empty, the price is a number that is not
  negative, and inStock is absent or a boolean.
\<close>

definition nonblank_string :: "jsval \<Rightarrow> bool" where
  "nonblank_string v = (case v of JStr s \<Rightarrow> trim s \<noteq> [] | _ \<Rightarrow> False)"

definition nonempty_string :: "jsval \<Rightarrow> bool" where
  "nonempty_string v = (case v of JStr s \<Rightarrow> s \<noteq> [] | _ \<Rightarrow> False)"

definition nonneg_number :: "jsval \<Rightarrow> bool" where
  "nonneg_number v = (case v of JNum n \<Rightarrow> 0 \<le> n | _ \<Rightarrow> False)"

definition optional_boolean :: "jsval \<Rightarrow> bool" where
  "optional_boolean v = (case v of JUndefined \<Rightarrow> True | JBool x \<Rightarrow> True | _ \<Rightarrow> False)"

definition other_fields_valid :: "(string \<rightharpoonup> jsval) \<Rightarrow> bool" where
  "other_fields_valid b =
     (nonblank_string (field b ''name'') \<and> nonempty_string (field b ''description'')
      \<and> nonblank_string (field b ''category'') \<and> optional_boolean (field b ''inStock''))"

definition missing_required :: "(string \<rightharpoonup> jsval) \<Rightarrow> bool" where
  "missing_required b =
     (field b ''name'' = JUndefined \<or> field b ''description'' = JUndefined
      \<or> field b ''price'' = JUndefined \<or> field b ''category'' = JUndefined)"



text \<open>The stored record holds the trimmed name, description and category of the body.\<close>

definition trimmed :: "jsval \<Rightarrow> string \<Rightarrow> bool" where
  "trimmed v s = (case v of JStr t \<Rightarrow> s = trim t | _ \<Rightarrow> False)"

definition trimmed_from :: "(string \<rightharpoonup> jsval) \<Rightarrow> product \<Rightarrow> bool" where
  "trimmed_from b p =
     (trimmed (field b ''name'') (pname p)
      \<and> trimmed (field b ''description'') (pdescription p)
      \<and> trimmed (field b ''category'') (pcategory p))"

definition body_free :: "string \<rightharpoonup> jsval" where
  "body_free =
     [''name'' \<mapsto> JStr ''Sample'', ''description'' \<mapsto> JStr ''Free sample'',
      ''price'' \<mapsto> JNum 0, ''category'' \<mapsto> JStr ''promo'']"


definition body_missing :: "string \<rightharpoonup> jsval" where
  "body_missing =
     [''description'' \<mapsto> JStr ''A mug'', ''price'' \<mapsto> JNum 5,
      ''category'' \<mapsto> JStr ''kitchen'', ''inStock'' \<mapsto> JBool True]"

definition no_cast :: "jsval \<Rightarrow> jsval option" where
  "no_cast v = None"

definition accepts :: "document \<Rightarrow> bool" where
  "accepts d = True"


definition fields_json :: "document \<Rightarrow> jsval" where
  "fields_json d =
     JObj [(''_id'', JStr ''6543210fedcba9876543210f''), (''id'', JStr (did d)),
           (''name'', dname d), (''description'', ddescription d), (''price'', dprice d),
           (''category'', dcategory d), (''inStock'', dinStock d), (''__v'', JNum 0)]"

definition mongoose_up :: mongoose where
  "mongoose_up =
     \<lparr>cast_String = no_cast, cast_Number = no_cast, cast_Boolean = no_cast,
      save_succeeds = accepts, toJSON = fields_json\<rparr>"



definition request_get_stats :: request where
  "request_get_stats =
     \<lparr>req_method = ''GET'', req_url = ''/api/products/stats'', req_query = Map.empty,
      req_apikey = None, req_body = Inr Map.empty\<rparr>"

definition request_put :: request where
  "request_put =
     \<lparr>req_method = ''PUT'', req_url = ''/api/products/2'', req_query = Map.empty,
      req_apikey = Some ''your-secret-api-key'', req_body = Inr Map.empty\<rparr>"

definition body_replace :: "string \<rightharpoonup> jsval" where
  "body_replace =
     [''id'' \<mapsto> JStr ''999'', ''name'' \<mapsto> JStr ''Phone'',
      ''description'' \<mapsto> JStr ''Refurbished'', ''price'' \<mapsto> JNum 700,
      ''category'' \<mapsto> JStr ''electronics'']"

definition body_padded :: "string \<rightharpoonup> jsval" where
  "body_padded =
     [''name'' \<mapsto> JStr ''  Mug  '', ''description'' \<mapsto> JStr '' A mug'',
      ''price'' \<mapsto> JNum 5, ''category'' \<mapsto> JStr ''kitchen '',
      ''inStock'' \<mapsto> JBool True]"

text \<open>A number from \<open>2^53\<close> on, or infinite: beyond every index of an array.\<close>

definition huge :: "number \<Rightarrow> bool" where
  "huge x = (case x of PosInf \<Rightarrow> True | Finite m \<Rightarrow> 9007199254740992 \<le> m | _ \<Rightarrow> False)"

text \<open>
  The canonical failure body \<open>{ error: { name, message, statusCode, timestamp, path,
  method } }\<close>: \<open>error_fields\<close> are the members of the \<open>error\<close> object of a body
  that has just that one member.
\<close>

definition error_fields :: "payload \<Rightarrow> (string \<times> jsval) list" where
  "error_fields pl =
     (case pl of
        Json (JObj [(k, JObj fs)]) \<Rightarrow> if k = ''error'' then fs else []
      | _ \<Rightarrow> [])"

definition has_error_shape :: "payload \<Rightarrow> bool" where
  "has_error_shape pl =
     (map fst (error_fields pl) =
        [''name'', ''message'', ''statusCode'', ''timestamp'', ''path'', ''method''])"

text \<open>
  The body parser's error for a body that is not JSON, and the errors that the handler
  takes for unexpected: those of a foreign class that it does not recognise.
\<close>

definition malformed_json :: "string \<Rightarrow> foreign_error" where
  "malformed_json m = Foreign ''SyntaxError'' m (Some 400) True"

fun unexpected :: "foreign_error \<Rightarrow> bool" where
  "unexpected (Foreign n m st hb) =
     (if n = ''CastError'' then False
      else if n = ''SyntaxError'' \<and> st = Some 400 \<and> hb then False else True)"

definition env_production :: env where
  "env_production = env_test\<lparr>NODE_ENV := Some ''production''\<rparr>"

definition request_get_missing :: request where
  "request_get_missing =
     \<lparr>req_method = ''GET'', req_url = ''/api/products/999'', req_query = Map.empty,
      req_apikey = None, req_body = Inr Map.empty\<rparr>"

definition broken :: foreign_error where
  "broken = Foreign ''TypeError'' ''Cannot read properties of undefined'' None False"

definition cast_error :: foreign_error where
  "cast_error = Foreign ''CastError'' ''Cast to ObjectId failed'' None False"

section \<open>Page and limit\<close>

lemma parseInt_defaults: "parseInt ''1'' = Finite 1" "parseInt ''10'' = Finite 10"
  by code_simp+

lemma parseInt_examples:
  "parseInt ''abc'' = NaN" "parseInt ''many'' = NaN"
  "parseInt ''-3'' = Finite (- 3)" "parseInt ''500'' = Finite 500"
  "parseInt ''2abc'' = Finite 2"
  by code_simp+

lemma parseInt_rounds: "parseInt ''9007199254740993'' = Finite 9007199254740992"
  by code_simp

lemma to_double_not_NaN: "to_double n \<noteq> NaN"
  by (simp add: to_double_def Let_def)

lemma parseInt_NaN_iff: "parseInt s = NaN \<longleftrightarrow> snd (sign_and_digits s) = []"
  by (simp add: parseInt_def to_double_not_NaN split: prod.split)

lemma page_of_number:
  "Math_max (or_default x (Finite 1)) (Finite 1) =
     (case x of Finite n \<Rightarrow> Finite (max n 1) | PosInf \<Rightarrow> PosInf | NegInf \<Rightarrow> Finite 1
      | NaN \<Rightarrow> Finite 1)"
  by (cases x) (auto simp: Math_max_def or_default_def)

lemma limit_of_number:
  "Math_min (Math_max (or_default x (Finite 10)) (Finite 1)) (Finite 100) =
     (case x of Finite n \<Rightarrow> Finite (if n = 0 then 10 else min (max n 1) 100)
      | PosInf \<Rightarrow> Finite 100 | NegInf \<Rightarrow> Finite 1 | NaN \<Rightarrow> Finite 10)"
  by (cases x) (auto simp: Math_max_def Math_min_def or_default_def)

lemma pageNum_absent: "query ''page'' = None \<Longrightarrow> pageNum query = Finite 1"
  by (simp add: pageNum_def parseInt_defaults page_of_number)

lemma pageNum_given:
  "query ''page'' = Some s \<Longrightarrow>
     pageNum query =
       (case parseInt s of Finite n \<Rightarrow> Finite (max n 1) | PosInf \<Rightarrow> PosInf
        | NegInf \<Rightarrow> Finite 1 | NaN \<Rightarrow> Finite 1)"
  by (simp add: pageNum_def page_of_number)

lemma limitNum_absent: "query ''limit'' = None \<Longrightarrow> limitNum query = Finite 10"
  by (simp add: limitNum_def parseInt_defaults limit_of_number)

lemma limitNum_given:
  "query ''limit'' = Some s \<Longrightarrow>
     limitNum query =
       (case parseInt s of Finite n \<Rightarrow> Finite (if n = 0 then 10 else min (max n 1) 100)
        | PosInf \<Rightarrow> Finite 100 | NegInf \<Rightarrow> Finite 1 | NaN \<Rightarrow> Finite 10)"
  by (simp add: limitNum_def limit_of_number)

lemma pageNum_cases: "pageNum query = PosInf \<or> (\<exists>p. pageNum query = Finite p \<and> 1 \<le> p)"
proof (cases "query ''page''")
  case None
  then show ?thesis by (simp add: pageNum_absent)
next
  case (Some s)
  then show ?thesis by (cases "parseInt s") (simp_all add: pageNum_given)
qed

lemma limitNum_cases: "\<exists>l. limitNum query = Finite l \<and> 1 \<le> l \<and> l \<le> 100"
proof (cases "query ''limit''")
  case None
  then show ?thesis by (simp add: limitNum_absent)
next
  case (Some s)
  then show ?thesis by (cases "parseInt s") (simp_all add: limitNum_given)
qed

lemma pageNum_ge_1: "num_le (Finite 1) (pageNum query)"
  using pageNum_cases [of query] by auto

text \<open>
  C4, as stated, fails for a page that is not a number but starts with one: such input
  is invalid and non-numeric, yet \<open>parseInt\<close> reads its leading digits, so
  \<open>page=2abc\<close> gives page 2, not 1.
\<close>

theorem numeric_prefix_is_parsed:
  "query_prefix ''page'' = Some ''2abc''
   \<and> list_all is_digit ''2abc'' = False
   \<and> pageNum query_prefix = Finite 2"
proof (intro conjI)
  show "query_prefix ''page'' = Some ''2abc''"
    by (simp add: query_prefix_def)
  show "list_all is_digit ''2abc'' = False"
    by (simp add: is_digit_def)
  have "query_prefix ''page'' = Some ''2abc''"
    by (simp add: query_prefix_def)
  then show "pageNum query_prefix = Finite 2"
    by (simp add: pageNum_given parseInt_examples)
qed

text \<open>
  C4, amended. The page is at least 1 (possibly infinite) and the limit is a whole number
  between 1 and 100, whatever the query holds. An absent page is 1 and an absent limit is
  10. \<open>parseInt\<close> reads the parameter: white space, an optional sign, then the longest
  run of leading digits. A page without a leading digit is 1; a page with leading
  digits is the number they denote (as a double), raised to the floor 1. A limit without
  a leading digit is 10; a limit with leading digits is the number they denote, clamped
  to 1..100, the falsy 0 taking the default 10 first.
\<close>

theorem pagination_parameters:
  "num_le (Finite 1) (pageNum query)
   \<and> (\<exists>l. limitNum query = Finite l \<and> 1 \<le> l \<and> l \<le> 100)
   \<and> (query ''page'' = None \<longrightarrow> pageNum query = Finite 1)
   \<and> (\<forall>s. query ''page'' = Some s \<and> snd (sign_and_digits s) = [] \<longrightarrow>
          pageNum query = Finite 1)
   \<and> (\<forall>s n. query ''page'' = Some s \<and> parseInt s = Finite n \<longrightarrow>
          pageNum query = Finite (max n 1))
   \<and> (\<forall>s. query ''page'' = Some s \<and> parseInt s = PosInf \<longrightarrow> pageNum query = PosInf)
   \<and> (\<forall>s. query ''page'' = Some s \<and> parseInt s = NegInf \<longrightarrow> pageNum query = Finite 1)
   \<and> (query ''limit'' = None \<longrightarrow> limitNum query = Finite 10)
   \<and> (\<forall>s. query ''limit'' = Some s \<and> snd (sign_and_digits s) = [] \<longrightarrow>
          limitNum query = Finite 10)
   \<and> (\<forall>s n. query ''limit'' = Some s \<and> parseInt s = Finite n \<longrightarrow>
          limitNum query = Finite (if n = 0 then 10 else min (max n 1) 100))
   \<and> (\<forall>s. query ''limit'' = Some s \<and> parseInt s = PosInf \<longrightarrow> limitNum query = Finite 100)
   \<and> (\<forall>s. query ''limit'' = Some s \<and> parseInt s = NegInf \<longrightarrow> limitNum query = Finite 1)
   \<and> (\<forall>s. snd (sign_and_digits s) \<noteq> [] \<longrightarrow>
          parseInt s = to_double (if fst (sign_and_digits s)
                                  then - digits_value (snd (sign_and_digits s))
                                  else digits_value (snd (sign_and_digits s))))"
proof (intro conjI allI impI)
  show "num_le (Finite 1) (pageNum query)" by (rule pageNum_ge_1)
  show "\<exists>l. limitNum query = Finite l \<and> 1 \<le> l \<and> l \<le> 100" by (rule limitNum_cases)
  show "pageNum query = Finite 1" if "query ''page'' = None"
    using that by (rule pageNum_absent)
  show "pageNum query = Finite 1"
    if "query ''page'' = Some s \<and> snd (sign_and_digits s) = []" for s
    using that by (simp add: pageNum_given parseInt_NaN_iff [symmetric])
  show "pageNum query = Finite (max n 1)"
    if "query ''page'' = Some s \<and> parseInt s = Finite n" for s n
    using that by (simp add: pageNum_given)
  show "pageNum query = PosInf" if "query ''page'' = Some s \<and> parseInt s = PosInf" for s
    using that by (simp add: pageNum_given)
  show "pageNum query = Finite 1" if "query ''page'' = Some s \<and> parseInt s = NegInf" for s
    using that by (simp add: pageNum_given)
  show "limitNum query = Finite 10" if "query ''limit'' = None"
    using that by (rule limitNum_absent)
  show "limitNum query = Finite 10"
    if "query ''limit'' = Some s \<and> snd (sign_and_digits s) = []" for s
    using that by (simp add: limitNum_given parseInt_NaN_iff [symmetric])
  show "limitNum query = Finite (if n = 0 then 10 else min (max n 1) 100)"
    if "query ''limit'' = Some s \<and> parseInt s = Finite n" for s n
    using that by (simp add: limitNum_given)
  show "limitNum query = Finite 100" if "query ''limit'' = Some s \<and> parseInt s = PosInf" for s
    using that by (simp add: limitNum_given)
  show "limitNum query = Finite 1" if "query ''limit'' = Some s \<and> parseInt s = NegInf" for s
    using that by (simp add: limitNum_given)
  show "parseInt s = to_double (if fst (sign_and_digits s)
                                  then - digits_value (snd (sign_and_digits s))
                                  else digits_value (snd (sign_and_digits s)))"
    if "snd (sign_and_digits s) \<noteq> []" for s
    using that by (cases "sign_and_digits s") (simp add: parseInt_def)
qed

theorem pagination_parameters_witness:
  "pageNum query_none = Finite 1 \<and> limitNum query_none = Finite 10
   \<and> pageNum query_words = Finite 1 \<and> limitNum query_words = Finite 10
   \<and> pageNum query_out_of_range = Finite 1 \<and> limitNum query_out_of_range = Finite 100
   \<and> pageNum query_rounded = Finite 9007199254740992"
proof -
  have a: "query_none ''page'' = None" "query_none ''limit'' = None"
    by (simp_all add: query_none_def)
  have b: "query_words ''page'' = Some ''abc''" "query_words ''limit'' = Some ''many''"
    by (simp_all add: query_words_def)
  have nodigits: "snd (sign_and_digits ''abc'') = []" "snd (sign_and_digits ''many'') = []"
    by code_simp+
  have c: "query_out_of_range ''page'' = Some ''-3''"
    "query_out_of_range ''limit'' = Some ''500''"
    by (simp_all add: query_out_of_range_def)
  have d: "query_rounded ''page'' = Some ''9007199254740993''"
    by (simp add: query_rounded_def)
  from pagination_parameters [of query_none] a
  have 1: "pageNum query_none = Finite 1 \<and> limitNum query_none = Finite 10" by simp
  from pagination_parameters [of query_words] b nodigits
  have 2: "pageNum query_words = Finite 1 \<and> limitNum query_words = Finite 10" by simp
  from pagination_parameters [of query_out_of_range] c parseInt_examples
  have 3: "pageNum query_out_of_range = Finite 1 \<and> limitNum query_out_of_range = Finite 100"
    by simp
  from pagination_parameters [of query_rounded] d parseInt_rounds
  have 4: "pageNum query_rounded = Finite 9007199254740992" by simp
  from 1 2 3 4 show ?thesis by simp
qed

section \<open>Filtering by category and name\<close>

lemma includes_str_sublist: "includes_str hay needle = sublist needle hay"
  by (induction hay) (simp_all add: sublist_Cons_right)

lemma category_selected_absent:
  "query ''category'' = None \<or> query ''category'' = Some [] \<Longrightarrow> category_selected query = (\<lambda>p. True)"
  by (auto simp: category_selected_def fun_eq_iff)

lemma category_selected_given:
  "query ''category'' = Some c \<Longrightarrow> c \<noteq> [] \<Longrightarrow> category_selected query = category_equals c"
  by (simp add: category_selected_def fun_eq_iff)

lemma name_selected_absent: "query ''q'' = None \<Longrightarrow> name_selected query = (\<lambda>p. True)"
  by (simp add: name_selected_def fun_eq_iff)

lemma name_selected_given: "query ''q'' = Some q \<Longrightarrow> name_selected query = name_contains q"
  by (simp add: name_selected_def fun_eq_iff)

lemma name_contains_empty: "name_contains [] = (\<lambda>p. True)"
  by (simp add: name_contains_def fun_eq_iff toLowerCase_def)

lemma filterResults_eq:
  "filterResults ps query = filter (name_selected query) (filter (category_selected query) ps)"
proof -
  let ?cat = "filter (category_selected query) ps"
  have cat: "?cat =
      (case query ''category'' of None \<Rightarrow> ps
       | Some c \<Rightarrow> if c = [] then ps
                   else filter (\<lambda>p. toLowerCase (pcategory p) = toLowerCase c) ps)"
  proof (cases "query ''category''")
    case None
    then show ?thesis by (simp add: category_selected_absent)
  next
    case (Some c)
    show ?thesis
    proof (cases "c = []")
      case True
      with Some show ?thesis by (simp add: category_selected_absent)
    next
      case False
      with Some have "category_selected query = category_equals c"
        by (rule_tac category_selected_given)
      moreover have "category_equals c = (\<lambda>p. toLowerCase (pcategory p) = toLowerCase c)"
        by (simp add: category_equals_def fun_eq_iff)
      ultimately show ?thesis using Some False by simp
    qed
  qed
  have nam: "filter (name_selected query) xs =
      (case query ''q'' of None \<Rightarrow> xs
       | Some q \<Rightarrow> if q = [] then xs
                   else filter (\<lambda>p. includes_str (toLowerCase (pname p)) (toLowerCase q)) xs)"
    for xs
  proof (cases "query ''q''")
    case None
    then show ?thesis by (simp add: name_selected_absent)
  next
    case (Some q)
    then have sel: "name_selected query = name_contains q" by (rule name_selected_given)
    show ?thesis
    proof (cases "q = []")
      case True
      with Some sel show ?thesis by (simp add: name_contains_empty)
    next
      case False
      have "name_contains q = (\<lambda>p. includes_str (toLowerCase (pname p)) (toLowerCase q))"
        by (simp add: name_contains_def includes_str_sublist fun_eq_iff)
      with Some sel False show ?thesis by simp
    qed
  qed
  have "filterResults ps query =
      (case query ''q'' of None \<Rightarrow> ?cat
       | Some q \<Rightarrow> if q = [] then ?cat
                   else filter (\<lambda>p. includes_str (toLowerCase (pname p)) (toLowerCase q)) ?cat)"
    unfolding cat by (cases "query ''q''") (simp_all add: filterResults_def Let_def)
  then show ?thesis by (simp only: nam [of ?cat])
qed

lemma seed_filters:
  "filter (name_contains ''LAP'') (filter (category_equals ''ELECTRONICS'') products)
     = take 1 products"
  "filter (category_equals ''electronics'') products = take 2 products"
  "filter (category_equals []) products = []"
  by code_simp+

text \<open>
  C5, as stated, fails for a category parameter that is given but empty: the handler
  tests \<open>if (category)\<close>, so \<open>?category=\<close> filters nothing and all three seed
  products come back, although none of them has the empty category.
\<close>

theorem empty_category_keeps_all:
  "query_empty_category ''category'' = Some []
   \<and> filterResults products query_empty_category = products
   \<and> filter (category_equals []) products = []
   \<and> length products = 3"
proof (intro conjI)
  show "query_empty_category ''category'' = Some []"
    by (simp add: query_empty_category_def)
  show "filterResults products query_empty_category = products"
    by (simp add: filterResults_def query_empty_category_def)
  show "filter (category_equals []) products = []"
    by (rule seed_filters(3))
  show "length products = 3"
    by (simp add: products_def)
qed

text \<open>
  C5, amended. The result is the store filtered by category and then by name. A category
  parameter that is given and not empty keeps exactly the records whose category equals
  it without regard to case (the whole string, not a part of it); an absent or empty one
  keeps every record. A \<open>q\<close> parameter that is given keeps, of what the category filter
  left, exactly the records whose name contains it without regard to case; an absent one
  keeps every record.
\<close>

theorem filter_semantics:
  "filterResults ps query = filter (name_selected query) (filter (category_selected query) ps)
   \<and> (\<forall>c. query ''category'' = Some c \<and> c \<noteq> [] \<longrightarrow>
          filter (category_selected query) ps = filter (category_equals c) ps)
   \<and> (query ''category'' = None \<or> query ''category'' = Some [] \<longrightarrow>
          filter (category_selected query) ps = ps)
   \<and> (\<forall>q xs. query ''q'' = Some q \<longrightarrow>
          filter (name_selected query) xs = filter (name_contains q) xs)
   \<and> (\<forall>xs. query ''q'' = None \<longrightarrow> filter (name_selected query) xs = xs)
   \<and> category_equals c p = (toLowerCase (pcategory p) = toLowerCase c)
   \<and> name_contains q p = (\<exists>pre suf. toLowerCase (pname p) = pre @ toLowerCase q @ suf)"
proof (intro conjI allI impI)
  show "filterResults ps query =
      filter (name_selected query) (filter (category_selected query) ps)"
    by (rule filterResults_eq)
  show "filter (category_selected query) ps = filter (category_equals c) ps"
    if "query ''category'' = Some c \<and> c \<noteq> []" for c
    using that by (simp add: category_selected_given)
  show "filter (category_selected query) ps = ps"
    if "query ''category'' = None \<or> query ''category'' = Some []"
    using that by (simp add: category_selected_absent)
  show "filter (name_selected query) xs = filter (name_contains q) xs"
    if "query ''q'' = Some q" for q xs
    using that by (simp add: name_selected_given)
  show "filter (name_selected query) xs = xs" if "query ''q'' = None" for xs
    using that by (simp add: name_selected_absent)
  show "category_equals c p = (toLowerCase (pcategory p) = toLowerCase c)"
    by (simp add: category_equals_def)
  show "name_contains q p = (\<exists>pre suf. toLowerCase (pname p) = pre @ toLowerCase q @ suf)"
    by (simp add: name_contains_def sublist_def)
qed

theorem filter_semantics_witness:
  "filterResults products query_electronics_lap = take 1 products
   \<and> filterResults products query_none = products
   \<and> filterResults products query_empty_category = products"
proof -
  have a: "query_electronics_lap ''category'' = Some ''ELECTRONICS''"
    "query_electronics_lap ''q'' = Some ''LAP''"
    by (simp_all add: query_electronics_lap_def)
  have b: "query_none ''category'' = None" "query_none ''q'' = None"
    by (simp_all add: query_none_def)
  have c: "query_empty_category ''category'' = Some []" "query_empty_category ''q'' = None"
    by (simp_all add: query_empty_category_def)
  from filter_semantics [of products query_electronics_lap "[]" "hd products" "[]"] a
  have "filterResults products query_electronics_lap =
      filter (name_contains ''LAP'') (filter (category_equals ''ELECTRONICS'') products)"
    by (simp del: filter_filter)
  then have 1: "filterResults products query_electronics_lap = take 1 products"
    by (simp only: seed_filters)
  from filter_semantics [of products query_none "[]" "hd products" "[]"] b
  have 2: "filterResults products query_none = products"
    by (simp del: filter_filter)
  from filter_semantics [of products query_empty_category "[]" "hd products" "[]"] c
  have 3: "filterResults products query_empty_category = products"
    by (simp del: filter_filter)
  from 1 2 3 show ?thesis by simp
qed

section \<open>Listing: total and page\<close>

lemma to_double_small: "\<bar>n\<bar> < 9007199254740992 \<Longrightarrow> to_double n = Finite n"
  by (simp add: to_double_def)

lemma to_double_huge:
  assumes "9007199254740992 \<le> n"
  shows "huge (to_double n)"
proof -
  define e where "e = nat (bitlen n) - 53"
  define q where "q = n div 2 ^ e"
  define r where "r = n mod 2 ^ e"
  define q' where "q' = (if 2 ^ (e - 1) < r \<or> (r = 2 ^ (e - 1) \<and> odd q) then q + 1 else q)"
  from assms have pos: "0 < n" by simp
  have "(2::int) ^ (nat 54 - 1) \<le> n" using assms by simp
  then have "54 \<le> bitlen n" by (simp add: bitlen_ge_iff_power)
  then have e: "1 \<le> e" and len: "nat (bitlen n - 1) = e + 52"
    by (simp_all add: e_def)
  from bitlen_bounds [OF pos] len have "(2::int) ^ (e + 52) \<le> n" by simp
  then have "(2::int) ^ 52 * 2 ^ e \<le> n" by (simp add: power_add mult.commute)
  then have "(2 ^ 52 * 2 ^ e) div 2 ^ e \<le> n div (2::int) ^ e"
    by (intro zdiv_mono1) simp_all
  then have q: "2 ^ 52 \<le> q" by (simp add: q_def)
  have "q \<le> q'" by (simp add: q'_def)
  with q have "2 ^ 52 \<le> q'" by simp
  moreover from e have "(2::int) \<le> 2 ^ e"
    using power_increasing [of 1 e "2::int"] by simp
  ultimately have "2 ^ 52 * 2 \<le> q' * 2 ^ e"
    by (intro mult_mono) simp_all
  then have m: "9007199254740992 \<le> q' * 2 ^ e" by simp
  have "to_double n = (if 2 ^ 1024 \<le> q' * 2 ^ e then PosInf else Finite (q' * 2 ^ e))"
    using assms pos by (simp add: to_double_def Let_def e_def q_def r_def q'_def)
  with m show ?thesis by (simp add: huge_def)
qed

lemma slice_index_beyond:
  assumes "int len < 9007199254740992" "huge x \<or> (\<exists>m. x = Finite m \<and> int len \<le> m)"
  shows "slice_index len x = len"
  using assms by (cases x) (auto simp: slice_index_def huge_def)

lemma slice_beyond:
  assumes "slice_index (length xs) start = length xs"
  shows "slice xs start stop = []"
  using assms by (simp add: slice_def Let_def)

lemma slice_exact:
  assumes "0 \<le> s" "0 \<le> l"
  shows "slice xs (Finite s) (Finite (s + l)) = take (nat l) (drop (nat s) xs)"
proof -
  let ?len = "int (length xs)"
  define k where "k = slice_index (length xs) (Finite s)"
  define fin where "fin = slice_index (length xs) (Finite (s + l))"
  from assms have k: "k = nat (min s ?len)" and fin: "fin = nat (min (s + l) ?len)"
    by (simp_all add: slice_index_def k_def fin_def)
  have sl: "slice xs (Finite s) (Finite (s + l)) = take (fin - k) (drop k xs)"
    by (simp add: slice_def Let_def k_def fin_def)
  consider (inside) "s + l \<le> ?len" | (over) "s \<le> ?len" "?len < s + l" | (beyond) "?len < s"
    by linarith
  then show ?thesis
  proof cases
    case inside
    with assms k fin have "fin - k = nat l" and "k = nat s" by linarith+
    with sl show ?thesis by simp
  next
    case over
    with assms k fin have "fin - k = length xs - nat s" and "k = nat s" by linarith+
    moreover from over assms have "length xs - nat s \<le> nat l" by linarith
    ultimately show ?thesis using sl by simp
  next
    case beyond
    with assms k have "k = length xs" by linarith
    moreover from beyond have "drop (nat s) xs = []" by simp
    ultimately show ?thesis using sl by simp
  qed
qed

lemma num_sub_one: "num_sub (Finite p) (Finite 1) = to_double (p - 1)"
  by (simp add: num_sub_def)

lemma slice_page:
  assumes "1 \<le> p" "1 \<le> l" "l \<le> 100" "length xs < 4294967296"
  shows "slice xs (num_mul (num_sub (Finite p) (Finite 1)) (Finite l))
           (num_add (num_mul (num_sub (Finite p) (Finite 1)) (Finite l)) (Finite l))
         = take (nat l) (drop (nat ((p - 1) * l)) xs)"
proof (cases "(p - 1) * l + l < 9007199254740992")
  case True
  from assms have nonneg: "0 \<le> (p - 1) * l" by simp
  from assms have "p - 1 \<le> (p - 1) * l"
    using mult_left_mono [of 1 l "p - 1"] by simp
  with True assms have "\<bar>p - 1\<bar> < 9007199254740992" by simp
  then have sub: "num_sub (Finite p) (Finite 1) = Finite (p - 1)"
    by (simp add: num_sub_one to_double_small)
  from True assms nonneg have "\<bar>(p - 1) * l\<bar> < 9007199254740992" by simp
  then have mul: "num_mul (Finite (p - 1)) (Finite l) = Finite ((p - 1) * l)"
    by (simp add: to_double_small)
  from True assms nonneg have "\<bar>(p - 1) * l + l\<bar> < 9007199254740992" by simp
  then have add: "num_add (Finite ((p - 1) * l)) (Finite l) = Finite ((p - 1) * l + l)"
    by (simp add: to_double_small)
  from assms nonneg show ?thesis
    by (simp only: sub mul add) (rule slice_exact, simp_all)
next
  case False
  let ?start = "num_mul (num_sub (Finite p) (Finite 1)) (Finite l)"
  from False assms have far: "9007199254740892 \<le> (p - 1) * l" by simp
  have len: "int (length xs) < 9007199254740992" using assms by simp
  have start: "huge ?start \<or> (\<exists>m. ?start = Finite m \<and> int (length xs) \<le> m)"
  proof (cases "p - 1 < 9007199254740992")
    case True
    with assms have sub: "num_sub (Finite p) (Finite 1) = Finite (p - 1)"
      by (simp add: num_sub_one to_double_small)
    show ?thesis
    proof (cases "(p - 1) * l < 9007199254740992")
      case True
      with far have "?start = Finite ((p - 1) * l)"
        by (simp add: sub to_double_small)
      with far assms show ?thesis by simp
    next
      case False
      then have "huge (to_double ((p - 1) * l))" by (intro to_double_huge) simp
      then show ?thesis by (simp add: sub)
    qed
  next
    case False
    then have h: "huge (to_double (p - 1))" by (intro to_double_huge) simp
    show ?thesis
    proof (cases "to_double (p - 1)")
      case (Finite m)
      with h have m: "9007199254740992 \<le> m" by (simp add: huge_def)
      then have "0 \<le> m" by simp
      with assms(2) have "m * 1 \<le> m * l" by (intro mult_left_mono)
      then have "m \<le> m * l" by (simp only: mult_1_right)
      with m have "9007199254740992 \<le> m * l" by linarith
      then have "huge (to_double (m * l))" by (rule to_double_huge)
      with Finite show ?thesis by (simp add: num_sub_one)
    next
      case PosInf
      with assms show ?thesis by (simp add: num_sub_one huge_def)
    next
      case NegInf
      with h show ?thesis by (simp add: huge_def)
    next
      case NaN
      with h show ?thesis by (simp add: huge_def)
    qed
  qed
  have "slice_index (length xs) ?start = length xs"
    using len start by (rule slice_index_beyond)
  then have "slice xs ?start (num_add ?start (Finite l)) = []" by (rule slice_beyond)
  moreover from far assms have "drop (nat ((p - 1) * l)) xs = []" by simp
  ultimately show ?thesis by simp
qed

lemma slice_page_infinite:
  assumes "1 \<le> l"
  shows "slice xs (num_mul (num_sub PosInf (Finite 1)) (Finite l)) stop = []"
proof -
  from assms have "num_mul (num_sub PosInf (Finite 1)) (Finite l) = PosInf"
    by (simp add: num_sub_def)
  then show ?thesis by (simp add: slice_def slice_index_def Let_def)
qed

lemma subseq_take_drop: "subseq (take n (drop k xs)) xs"
proof -
  have "sublist (take n (drop k xs)) (drop k xs)" by simp
  moreover have "sublist (drop k xs) xs" by simp
  ultimately have "sublist (take n (drop k xs)) xs"
    by (rule sublist_order.order.trans)
  then show ?thesis by (rule sublist_imp_subseq)
qed

lemma subseq_slice: "subseq (slice xs start stop) xs"
  by (simp add: slice_def Let_def subseq_take_drop)

lemma subseq_filterResults: "subseq (filterResults ps query) ps"
  by (simp add: filterResults_def Let_def split: option.split)

lemma listProducts_fields:
  "epage (listProducts ps query) = pageNum query"
  "elimit (listProducts ps query) = limitNum query"
  "etotal (listProducts ps query) = length (filterResults ps query)"
  "edata (listProducts ps query) =
     slice (filterResults ps query)
       (num_mul (num_sub (pageNum query) (Finite 1)) (limitNum query))
       (num_add (num_mul (num_sub (pageNum query) (Finite 1)) (limitNum query))
          (limitNum query))"
  by (simp_all add: listProducts_def Let_def)

lemma length_filterResults: "length (filterResults ps query) \<le> length ps"
  using subseq_filterResults [of ps query] by (rule list_emb_length)

lemma listProducts_data:
  assumes "length ps < 4294967296" "pageNum query = Finite p" "limitNum query = Finite l"
  shows "edata (listProducts ps query) =
           take (nat l) (drop (nat ((p - 1) * l)) (filterResults ps query))"
proof -
  from pageNum_cases [of query] assms(2) have p: "1 \<le> p" by simp
  from limitNum_cases [of query] assms(3) have l: "1 \<le> l" "l \<le> 100" by simp_all
  from length_filterResults [of ps query] assms(1)
  have "length (filterResults ps query) < 4294967296" by simp
  from slice_page [OF p l this] show ?thesis
    by (simp add: listProducts_fields assms(2,3))
qed

lemma listProducts_data_infinite:
  assumes "pageNum query = PosInf"
  shows "edata (listProducts ps query) = []"
proof -
  from limitNum_cases [of query] obtain l where l: "limitNum query = Finite l" "1 \<le> l"
    by (elim exE conjE)
  from slice_page_infinite [OF l(2)] show ?thesis
    by (simp add: listProducts_fields assms l(1))
qed

lemma listProducts_length:
  assumes "length ps < 4294967296" "limitNum query = Finite l"
  shows "length (edata (listProducts ps query)) \<le> nat l"
proof -
  from pageNum_cases [of query] show ?thesis
  proof (elim disjE exE conjE)
    assume "pageNum query = PosInf"
    then show ?thesis by (simp add: listProducts_data_infinite)
  next
    fix p
    assume "pageNum query = Finite p"
    with assms show ?thesis by (simp add: listProducts_data)
  qed
qed

lemma seed_pages:
  "listProducts products query_page1 =
     \<lparr>epage = Finite 1, elimit = Finite 2, etotal = 3, edata = take 2 products\<rparr>"
  "listProducts products query_page2 =
     \<lparr>epage = Finite 2, elimit = Finite 2, etotal = 3, edata = drop 2 products\<rparr>"
  "listProducts products query_electronics_first =
     \<lparr>epage = Finite 1, elimit = Finite 1, etotal = 2, edata = take 1 products\<rparr>"
  by code_simp+

text \<open>
  C3. The list endpoint answers with the envelope \<open>{page, limit, total, data}\<close>. The
  total is the number of records that the category filter and then the name filter leave,
  not the length of the page. For a store that an array can hold (fewer than \<open>2^32\<close>
  records), the data are the filtered records from index \<open>(page - 1) * limit\<close> on, at
  most \<open>limit\<close> of them, in the order of the store; an infinite page has no data. With
  the three seed products and \<open>limit=2\<close>, page 1 holds the first two records and page
  2 the remaining one, both with total 3; with \<open>category=electronics\<close> and
  \<open>limit=1\<close> the total is 2 and the page holds one record.
\<close>

theorem list_envelope:
  "epage (listProducts ps query) = pageNum query
   \<and> elimit (listProducts ps query) = limitNum query
   \<and> etotal (listProducts ps query) = length (filterResults ps query)
   \<and> filterResults ps query =
       filter (name_selected query) (filter (category_selected query) ps)
   \<and> (length ps < 4294967296 \<longrightarrow>
        (\<forall>p l. pageNum query = Finite p \<and> limitNum query = Finite l \<longrightarrow>
           edata (listProducts ps query) =
             take (nat l) (drop (nat ((p - 1) * l)) (filterResults ps query)))
        \<and> (pageNum query = PosInf \<longrightarrow> edata (listProducts ps query) = [])
        \<and> (\<forall>l. limitNum query = Finite l \<longrightarrow>
             length (edata (listProducts ps query)) \<le> nat l))
   \<and> subseq (edata (listProducts ps query)) (filterResults ps query)
   \<and> subseq (filterResults ps query) ps
   \<and> run_handler e ps req b ListProducts params =
       Inr (\<lparr>status = 200,
             body = Json (JObj
               [(''page'', number_json (epage (listProducts ps (req_query req)))),
                (''limit'', number_json (elimit (listProducts ps (req_query req)))),
                (''total'', JNum (of_nat (etotal (listProducts ps (req_query req))))),
                (''data'', JArr (map product_json (edata (listProducts ps (req_query req)))))])\<rparr>,
            ps)
   \<and> listProducts products query_page1 =
       \<lparr>epage = Finite 1, elimit = Finite 2, etotal = 3, edata = take 2 products\<rparr>
   \<and> length (take 2 products) = 2
   \<and> listProducts products query_page2 =
       \<lparr>epage = Finite 2, elimit = Finite 2, etotal = 3, edata = drop 2 products\<rparr>
   \<and> length (drop 2 products) = 1
   \<and> listProducts products query_electronics_first =
       \<lparr>epage = Finite 1, elimit = Finite 1, etotal = 2, edata = take 1 products\<rparr>"
proof (intro conjI allI impI)
  show "epage (listProducts ps query) = pageNum query"
    by (rule listProducts_fields)
  show "elimit (listProducts ps query) = limitNum query"
    by (rule listProducts_fields)
  show "etotal (listProducts ps query) = length (filterResults ps query)"
    by (rule listProducts_fields)
  show "filterResults ps query =
       filter (name_selected query) (filter (category_selected query) ps)"
    by (rule filterResults_eq)
  show "subseq (edata (listProducts ps query)) (filterResults ps query)"
    by (simp only: listProducts_fields subseq_slice)
  show "subseq (filterResults ps query) ps"
    by (rule subseq_filterResults)
  show "run_handler e ps req b ListProducts params =
       Inr (\<lparr>status = 200,
             body = Json (JObj
               [(''page'', number_json (epage (listProducts ps (req_query req)))),
                (''limit'', number_json (elimit (listProducts ps (req_query req)))),
                (''total'', JNum (of_nat (etotal (listProducts ps (req_query req))))),
                (''data'', JArr (map product_json (edata (listProducts ps (req_query req)))))])\<rparr>,
            ps)"
    by (simp add: run_handler_def envelope_json_def)
  show "listProducts products query_page1 =
       \<lparr>epage = Finite 1, elimit = Finite 2, etotal = 3, edata = take 2 products\<rparr>"
    by (rule seed_pages)
  show "listProducts products query_page2 =
       \<lparr>epage = Finite 2, elimit = Finite 2, etotal = 3, edata = drop 2 products\<rparr>"
    by (rule seed_pages)
  show "listProducts products query_electronics_first =
       \<lparr>epage = Finite 1, elimit = Finite 1, etotal = 2, edata = take 1 products\<rparr>"
    by (rule seed_pages)
  show "length (take 2 products) = 2" by (simp add: products_def)
  show "length (drop 2 products) = 1" by (simp add: products_def)
next
  fix p l
  assume "length ps < 4294967296" "pageNum query = Finite p \<and> limitNum query = Finite l"
  then show "edata (listProducts ps query) =
             take (nat l) (drop (nat ((p - 1) * l)) (filterResults ps query))"
    by (intro listProducts_data) simp_all
next
  assume "length ps < 4294967296" "pageNum query = PosInf"
  then show "edata (listProducts ps query) = []"
    by (intro listProducts_data_infinite)
next
  fix l
  assume "length ps < 4294967296" "limitNum query = Finite l"
  then show "length (edata (listProducts ps query)) \<le> nat l"
    by (rule listProducts_length)
qed

theorem list_envelope_witness:
  "edata (listProducts products query_page2) = drop 2 products
   \<and> etotal (listProducts products query_page2) = 3
   \<and> length (edata (listProducts products query_electronics_first)) \<le> 1
   \<and> etotal (listProducts products query_electronics_first) = 2"
proof -
  have small: "length products < 4294967296" by (simp add: products_def)
  have page2: "pageNum query_page2 = Finite 2 \<and> limitNum query_page2 = Finite 2"
    by (simp add: pageNum_given limitNum_given query_page2_def parseInt_examples)
      code_simp
  have all: "filterResults products query_page2 = products"
    by (simp add: filterResults_def query_page2_def)
  have first: "limitNum query_electronics_first = Finite 1"
    by code_simp
  have two: "filter (name_selected query_electronics_first)
               (filter (category_selected query_electronics_first) products) = take 2 products"
    by code_simp
  note page = list_envelope [of products query_page2]
  note sliced = mp [OF conjunct2 [OF conjunct2 [OF conjunct2 [OF conjunct2 [OF page]]],
        THEN conjunct1] small]
  from mp [OF spec [OF spec [OF conjunct1 [OF sliced]]] page2]
  have 1: "edata (listProducts products query_page2) = drop 2 products"
    by (simp only: all) (simp add: products_def)
  from conjunct1 [OF conjunct2 [OF conjunct2 [OF page]]]
  have 2: "etotal (listProducts products query_page2) = 3"
    by (simp only: all) (simp add: products_def)
  note filtered = list_envelope [of products query_electronics_first]
  note bounded = mp [OF conjunct2 [OF conjunct2 [OF conjunct2 [OF conjunct2 [OF filtered]]],
        THEN conjunct1] small]
  from mp [OF spec [OF conjunct2 [OF conjunct2 [OF bounded]]] first]
  have 3: "length (edata (listProducts products query_electronics_first)) \<le> 1"
    by simp
  from conjunct1 [OF conjunct2 [OF conjunct2 [OF filtered]]]
    conjunct1 [OF conjunct2 [OF conjunct2 [OF conjunct2 [OF filtered]]]]
  have 4: "etotal (listProducts products query_electronics_first) = 2"
    by (simp only: two) (simp add: products_def)
  from 1 2 3 4 show ?thesis by simp
qed

section \<open>Statistics\<close>

lemma map_of_insert_index:
  "map_of acc k = None \<Longrightarrow>
     map_of (insert_index acc k v) x = (if x = k then Some v else map_of acc x)"
  by (induction acc) (auto split: if_splits)

lemma map_of_set_own:
  "map_of (set_own acc k v) x = (if x = k then Some v else map_of acc x)"
  by (simp add: set_own_def map_of_insert_index update_conv')

lemma all_numbers_map_of:
  "all_numbers acc \<Longrightarrow> map_of acc k = Some v \<Longrightarrow> \<exists>n. v = CNum n \<and> 0 < n"
  by (induction acc) (auto simp: all_numbers_def split: if_splits cval.splits)

lemma all_numbers_insert_index:
  "all_numbers acc \<Longrightarrow> 0 < n \<Longrightarrow> all_numbers (insert_index acc k (CNum n))"
  by (induction acc) (auto simp: all_numbers_def)

lemma all_numbers_update:
  "all_numbers acc \<Longrightarrow> 0 < n \<Longrightarrow> all_numbers (AList.update k (CNum n) acc)"
  by (induction acc) (auto simp: all_numbers_def)

lemma all_numbers_set_own:
  "all_numbers acc \<Longrightarrow> 0 < n \<Longrightarrow> all_numbers (set_own acc k (CNum n))"
  by (simp add: set_own_def all_numbers_insert_index all_numbers_update)

lemma inherited_proto: "inherited k = None \<Longrightarrow> k \<noteq> ''__proto__''"
  by (auto simp: inherited_def)

lemma count_step_plain:
  assumes "all_numbers acc" "inherited (pcategory p) = None"
  shows "count_step acc p = set_own acc (pcategory p) (CNum (number_at acc (pcategory p) + 1))"
proof (cases "map_of acc (pcategory p)")
  case None
  with assms show ?thesis
    by (simp add: count_step_def number_at_def inherited_proto)
next
  case (Some v)
  with assms(1) obtain n where "v = CNum n" by (auto dest: all_numbers_map_of)
  with Some assms show ?thesis
    by (simp add: count_step_def number_at_def inherited_proto)
qed

lemma count_step_numbers:
  assumes "all_numbers acc" "inherited (pcategory p) = None"
  shows "all_numbers (count_step acc p)"
  using assms by (simp add: count_step_plain all_numbers_set_own)

lemma count_step_number_at:
  assumes "all_numbers acc" "inherited (pcategory p) = None"
  shows "number_at (count_step acc p) c = number_at acc c + (if pcategory p = c then 1 else 0)"
  using assms by (simp add: count_step_plain number_at_def map_of_set_own)

lemma foldl_count_step:
  assumes "all_numbers acc" "list_all (\<lambda>p. inherited (pcategory p) = None) ps"
  shows "all_numbers (foldl count_step acc ps)
         \<and> number_at (foldl count_step acc ps) c = number_at acc c + category_count c ps"
  using assms
proof (induction ps arbitrary: acc)
  case Nil
  then show ?case by (simp add: category_count_def)
next
  case (Cons p ps)
  from Cons.prems have p: "inherited (pcategory p) = None"
    and ps: "list_all (\<lambda>p. inherited (pcategory p) = None) ps" by simp_all
  have acc': "all_numbers (count_step acc p)"
    using Cons.prems(1) p by (rule count_step_numbers)
  from Cons.IH [OF acc' ps] count_step_number_at [OF Cons.prems(1) p, of c]
  show ?case by (simp add: category_count_def)
qed

lemma number_at_map_of:
  assumes "all_numbers acc"
  shows "map_of acc c = (if number_at acc c = 0 then None else Some (CNum (number_at acc c)))"
proof (cases "map_of acc c")
  case None
  then show ?thesis by (simp add: number_at_def)
next
  case (Some v)
  with assms obtain n where "v = CNum n" "0 < n" by (auto dest: all_numbers_map_of)
  with Some show ?thesis by (simp add: number_at_def)
qed

text \<open>
  On a store none of whose categories is a member name of \<open>Object.prototype\<close>, the
  statistics are the counts the specification asks for.
\<close>

lemma stats_counts:
  assumes "list_all (\<lambda>p. inherited (pcategory p) = None) ps"
  shows "stotal (getStats ps) = length ps"
    and "sinStock (getStats ps) = length (filter (\<lambda>p. pinStock p = True) ps)"
    and "map_of (sbyCategory (getStats ps)) c =
           (if category_count c ps = 0 then None else Some (CNum (category_count c ps)))"
proof -
  show "stotal (getStats ps) = length ps" by (simp add: getStats_def)
  show "sinStock (getStats ps) = length (filter (\<lambda>p. pinStock p = True) ps)"
    by (simp add: getStats_def)
  have start: "all_numbers []" by (simp add: all_numbers_def)
  from foldl_count_step [OF start assms, of c]
  have "all_numbers (foldl count_step [] ps)"
    and "number_at (foldl count_step [] ps) c = category_count c ps"
    by (simp_all add: number_at_def)
  then show "map_of (sbyCategory (getStats ps)) c =
           (if category_count c ps = 0 then None else Some (CNum (category_count c ps)))"
    using number_at_map_of [of "foldl count_step [] ps" c] by (simp add: getStats_def)
qed

lemma seed_stats:
  "getStats products =
     \<lparr>stotal = 3, sinStock = 2,
      sbyCategory = [(''electronics'', CNum 2), (''kitchen'', CNum 1)]\<rparr>"
  by code_simp

lemma seed_stats_json:
  "stats_json (getStats products) =
     JObj [(''total'', JNum 3), (''inStock'', JNum 2),
           (''byCategory'', JObj [(''electronics'', JNum 2), (''kitchen'', JNum 1)])]"
  by (simp add: seed_stats stats_json_def cval_json_def)

text \<open>
  C6 fails on a store that holds a product whose category is a member name of
  \<open>Object.prototype\<close>. Such a product is created by an ordinary POST. For the category
  \<open>constructor\<close> the reducer reads the inherited function, not an absent count, and
  \<open>byCategory.constructor\<close> becomes a text ending in \<open>1\<close> although one record has
  that category.
\<close>

theorem stats_constructor_category:
  "createProduct env_test products request_post body_constructor =
     Inr (\<lparr>status = 201,
           body = Json (message_json ''Product created successfully'' product_constructor)\<rparr>,
          products @ [product_constructor])
   \<and> category_count ''constructor'' (products @ [product_constructor]) = 1
   \<and> map_of (sbyCategory (getStats (products @ [product_constructor]))) ''constructor'' =
       Some (CStr ''function Object() { [native code] }1'')"
proof (intro conjI)
  have auth: "authenticateApiKey env_test request_post = None"
    by (simp add: authenticateApiKey_def expectedApiKey_def env_test_def request_post_def)
  have valid: "validateProduct body_constructor = None"
    by (simp add: validateProduct_def field_def body_constructor_def trim_def is_ws_def)
  have new: "newProduct (uuid env_test) body_constructor = Some product_constructor"
    by (simp add: newProduct_def field_def body_constructor_def product_constructor_def
        env_test_def trim_def is_ws_def)
  show "createProduct env_test products request_post body_constructor =
     Inr (\<lparr>status = 201,
           body = Json (message_json ''Product created successfully'' product_constructor)\<rparr>,
          products @ [product_constructor])"
    by (simp add: createProduct_def auth valid new)
  show "category_count ''constructor'' (products @ [product_constructor]) = 1"
    by code_simp
  show "map_of (sbyCategory (getStats (products @ [product_constructor]))) ''constructor'' =
       Some (CStr ''function Object() { [native code] }1'')"
    by code_simp
qed

section \<open>Validation and authentication\<close>

lemma trim_Nil: "trim [] = []"
  by (simp add: trim_def)

lemma blank_case:
  "(case v of JStr s \<Rightarrow> length (trim s) = 0 | _ \<Rightarrow> True) = (\<not> nonblank_string v)"
  by (cases v) (simp_all add: nonblank_string_def)

lemma nonblank_truthy: "nonblank_string v \<Longrightarrow> truthy v"
  by (cases v) (auto simp: nonblank_string_def trim_Nil)

lemma string_case:
  "(case v of JStr s \<Rightarrow> False | _ \<Rightarrow> True) = (\<not> (\<exists>s. v = JStr s))"
  by (cases v) simp_all

lemma nonempty_string_iff: "nonempty_string v = (truthy v \<and> (\<exists>s. v = JStr s))"
  by (cases v) (simp_all add: nonempty_string_def)

lemma price_case:
  "(case v of JNum n \<Rightarrow> n < 0 | _ \<Rightarrow> True) = (\<not> nonneg_number v)"
  by (cases v) (simp_all add: nonneg_number_def not_le)

lemma nonneg_defined: "nonneg_number v \<Longrightarrow> v \<noteq> JUndefined"
  by (cases v) (simp_all add: nonneg_number_def)

lemma inStock_case:
  "(case v of JUndefined \<Rightarrow> False | JBool x \<Rightarrow> False | _ \<Rightarrow> True) = (\<not> optional_boolean v)"
  by (cases v) (simp_all add: optional_boolean_def)

lemma validateProduct_None_iff:
  "validateProduct b = None \<longleftrightarrow> other_fields_valid b \<and> nonneg_number (field b ''price'')"
  unfolding validateProduct_def Let_def blank_case string_case price_case inStock_case
    other_fields_valid_def nonempty_string_iff
  using nonblank_truthy [of "field b ''name''"] nonblank_truthy [of "field b ''category''"]
    nonneg_defined [of "field b ''price''"]
  by auto

lemma validateProduct_Some:
  "validateProduct b = Some err \<Longrightarrow> \<exists>m. err = ValidationError m"
  unfolding validateProduct_def Let_def by (auto split: if_splits)





lemma authenticateApiKey_Some:
  "authenticateApiKey e req = Some err \<Longrightarrow> \<exists>m. err = AuthenticationError m"
  unfolding authenticateApiKey_def by (auto split: option.splits if_splits)

section \<open>Creating and replacing a product\<close>

lemma the_string_Some: "the_string v = Some s \<longleftrightarrow> v = JStr s"
  by (cases v) auto

lemma the_number_Some: "the_number v = Some n \<longleftrightarrow> v = JNum n"
  by (cases v) auto

lemma newProduct_Some:
  assumes "newProduct i b = Some p"
  shows "\<exists>name description price category.
           field b ''name'' = JStr name \<and> field b ''description'' = JStr description
           \<and> field b ''price'' = JNum price \<and> field b ''category'' = JStr category
           \<and> pid p = i \<and> pname p = trim name \<and> pdescription p = trim description
           \<and> pprice p = price \<and> pcategory p = trim category"
  using assms unfolding newProduct_def
  by (auto simp: the_string_Some the_number_Some split: option.splits)

lemma newProduct_trimmed: "newProduct i b = Some p \<Longrightarrow> trimmed_from b p"
  by (drule newProduct_Some) (auto simp: trimmed_from_def trimmed_def)

lemma nonblank_is_string: "nonblank_string v \<Longrightarrow> \<exists>s. the_string v = Some s"
  by (cases v) (simp_all add: nonblank_string_def)

lemma nonempty_is_string: "nonempty_string v \<Longrightarrow> \<exists>s. the_string v = Some s"
  by (cases v) (simp_all add: nonempty_string_def)

lemma nonneg_is_number: "nonneg_number v \<Longrightarrow> \<exists>n. the_number v = Some n"
  by (cases v) (simp_all add: nonneg_number_def)

lemma optional_boolean_inStock: "optional_boolean v \<Longrightarrow> \<exists>x. inStock_or_true v = Some x"
  by (cases v) (auto simp: optional_boolean_def)

lemma validateProduct_newProduct:
  assumes "validateProduct b = None"
  shows "\<exists>p. newProduct i b = Some p"
proof -
  from assms have v: "other_fields_valid b" "nonneg_number (field b ''price'')"
    by (simp_all add: validateProduct_None_iff)
  from v(1) obtain name description category inStock where
    "the_string (field b ''name'') = Some name"
    "the_string (field b ''description'') = Some description"
    "the_string (field b ''category'') = Some category"
    "inStock_or_true (field b ''inStock'') = Some inStock"
    unfolding other_fields_valid_def
    using nonblank_is_string nonempty_is_string optional_boolean_inStock by metis
  moreover from v(2) obtain price where "the_number (field b ''price'') = Some price"
    using nonneg_is_number by auto
  ultimately show ?thesis by (simp add: newProduct_def)
qed

lemma findIndex_Some:
  "findIndex P xs = Some k \<Longrightarrow> k < length xs \<and> P (xs ! k)"
proof (induction xs arbitrary: k)
  case Nil
  then show ?case by simp
next
  case (Cons x xs)
  show ?case
  proof (cases "P x")
    case True
    with Cons.prems show ?thesis by simp
  next
    case False
    with Cons.prems obtain j where "findIndex P xs = Some j" "k = Suc j" by auto
    with Cons.IH [of j] show ?thesis by simp
  qed
qed

lemma findIndex_None: "findIndex P xs = None \<longleftrightarrow> (\<forall>x \<in> set xs. \<not> P x)"
  by (induction xs) auto

lemma findIndex_present:
  "i \<in> set (map pid ps) \<Longrightarrow> \<exists>k. findIndex (\<lambda>p. pid p = i) ps = Some k"
  using findIndex_None [of "\<lambda>p. pid p = i" ps] by (cases "findIndex (\<lambda>p. pid p = i) ps") auto

lemma map_pid_update:
  "k < length ps \<Longrightarrow> pid (ps ! k) = i \<Longrightarrow> pid p = i \<Longrightarrow> map pid (ps[k := p]) = map pid ps"
  by (simp add: map_update list_update_same_conv)

lemma createProduct_Inr:
  "createProduct e ps req b = Inr (r, ps') \<longleftrightarrow>
     authenticateApiKey e req = None \<and> validateProduct b = None
     \<and> (\<exists>p. newProduct (uuid e) b = Some p
            \<and> r = \<lparr>status = 201,
                    body = Json (message_json ''Product created successfully'' p)\<rparr>
            \<and> ps' = ps @ [p])"
  unfolding createProduct_def by (auto split: option.splits)

lemma createProduct_Inl:
  "createProduct e ps req b = Inl err \<Longrightarrow>
     (\<exists>m. err = AuthenticationError m) \<or> (\<exists>m. err = ValidationError m)"
  unfolding createProduct_def
  using validateProduct_newProduct [of b "uuid e"]
  by (auto split: option.splits dest: authenticateApiKey_Some validateProduct_Some)

lemma updateProduct_Inr:
  "updateProduct e ps req b i = Inr (r, ps') \<longleftrightarrow>
     authenticateApiKey e req = None \<and> validateProduct b = None
     \<and> (\<exists>k p. findIndex (\<lambda>p. pid p = i) ps = Some k \<and> newProduct i b = Some p
            \<and> r = \<lparr>status = 200,
                    body = Json (message_json ''Product updated successfully'' p)\<rparr>
            \<and> ps' = ps[k := p])"
  unfolding updateProduct_def by (auto split: option.splits)

text \<open>
  The rich server's file loads and listens. The lean server's file throws at its first
  \<open>app.post\<close>, which names \<open>authenticateApiKey\<close> before its declaration: none of
  its routes for POST, PUT and DELETE is registered and the server never listens.
\<close>

lemma rich_module_loads:
  "load globals rich_module =
     Inr [''use bodyParser.json'', ''use logger'', ''get /'', ''get /api/products'',
          ''get /api/products/stats'', ''get /api/products/:id'', ''post /api/products'',
          ''put /api/products/:id'', ''delete /api/products/:id'', ''use error handler'',
          ''listen'', ''module.exports'']"
  by (simp add: globals_def rich_module_def)

lemma lean_module_throws: "load globals lean_module = Inl ''authenticateApiKey''"
  by (simp add: globals_def lean_module_def)

section \<open>Price, presence and the two validations\<close>





lemma router_post_status:
  "status (fst (router_post e db coll b)) = 400
   \<or> status (fst (router_post e db coll b)) = 201
   \<or> status (fst (router_post e db coll b)) = 500"
  unfolding router_post_def Let_def
  by (simp add: server_error_def split: option.split)


text \<open>
  The database-backed router tests \<open>!price\<close>, so it answers a price of 0 with 400 as
  if the field were missing.
\<close>

lemma router_post_zero_price:
  "field b ''price'' = JNum 0 \<Longrightarrow>
     status (fst (router_post e db coll b)) = 400 \<and> snd (router_post e db coll b) = coll"
  unfolding router_post_def Let_def by simp



lemma request_post_authenticated: "authenticateApiKey env_test request_post = None"
  by (simp add: authenticateApiKey_def expectedApiKey_def env_test_def request_post_def)



section \<open>Replacing keeps the id\<close>

lemma request_put_authenticated: "authenticateApiKey env_test request_put = None"
  by (simp add: authenticateApiKey_def expectedApiKey_def env_test_def request_put_def)

lemma updateProduct_present:
  assumes "i \<in> set (map pid ps)" "authenticateApiKey e req = None" "validateProduct b = None"
  shows "\<exists>k p. k < length ps \<and> pid (ps ! k) = i \<and> pid p = i
           \<and> updateProduct e ps req b i =
               Inr (\<lparr>status = 200,
                     body = Json (message_json ''Product updated successfully'' p)\<rparr>,
                    ps[k := p])
           \<and> ps[k := p] ! k = p
           \<and> map pid (ps[k := p]) = map pid ps"
proof -
  from findIndex_present [OF assms(1)]
  obtain k where k: "findIndex (\<lambda>p. pid p = i) ps = Some k" by (elim exE)
  from findIndex_Some [OF k] have kl: "k < length ps" and ki: "pid (ps ! k) = i" by simp_all
  from validateProduct_newProduct [OF assms(3), of i]
  obtain p where p: "newProduct i b = Some p" by (elim exE)
  from newProduct_Some [OF p] have pi: "pid p = i" by (elim exE conjE)
  have rich: "updateProduct e ps req b i =
      Inr (\<lparr>status = 200, body = Json (message_json ''Product updated successfully'' p)\<rparr>,
           ps[k := p])"
    using assms(2,3) k p by (simp add: updateProduct_def)
  have "ps[k := p] ! k = p" using kl by simp
  moreover have "map pid (ps[k := p]) = map pid ps"
    using kl ki pi by (rule map_pid_update)
  ultimately show ?thesis
    using kl ki pi rich by (intro exI [of _ k] exI [of _ p]) simp
qed

lemma replaced_ids:
  assumes "findIndex (\<lambda>p. pid p = i) ps = Some k" "newProduct i b = Some p"
  shows "map pid (ps[k := p]) = map pid ps \<and> p \<in> set (ps[k := p]) \<and> pid p = i"
proof -
  from findIndex_Some [OF assms(1)] have kl: "k < length ps" and ki: "pid (ps ! k) = i"
    by simp_all
  from newProduct_Some [OF assms(2)] have pi: "pid p = i" by (elim exE conjE)
  from kl have "p \<in> set (ps[k := p])" by (rule set_update_memI)
  with map_pid_update [OF kl ki pi] pi show ?thesis by simp
qed

text \<open>
  C2. In the rich server a PUT on an id that is in the store, with a valid key and a valid
  body, succeeds; the record it stores and returns has the id of the path, whatever the
  body holds (the body's own \<open>id\<close> is never read), and the ids of the store, position
  by position, are the same after the replacement as before. Every successful PUT has
  this form. The lean server's file throws when it is loaded, before its PUT route is
  registered, so that server replaces nothing.
\<close>

theorem replace_keeps_id:
  "(i \<in> set (map pid ps) \<and> authenticateApiKey e req = None \<and> validateProduct b = None \<longrightarrow>
      (\<exists>k p. k < length ps \<and> pid (ps ! k) = i \<and> pid p = i
         \<and> updateProduct e ps req b i =
             Inr (\<lparr>status = 200,
                   body = Json (message_json ''Product updated successfully'' p)\<rparr>,
                  ps[k := p])
         \<and> ps[k := p] ! k = p
         \<and> map pid (ps[k := p]) = map pid ps))
   \<and> (\<forall>r ps'. updateProduct e ps req b i = Inr (r, ps') \<longrightarrow>
         map pid ps' = map pid ps
         \<and> (\<exists>p. p \<in> set ps' \<and> pid p = i
                \<and> r = \<lparr>status = 200,
                        body = Json (message_json ''Product updated successfully'' p)\<rparr>))
   \<and> load globals lean_module = Inl ''authenticateApiKey''"
proof (intro conjI allI impI)
  assume "i \<in> set (map pid ps) \<and> authenticateApiKey e req = None \<and> validateProduct b = None"
  then show "\<exists>k p. k < length ps \<and> pid (ps ! k) = i \<and> pid p = i
         \<and> updateProduct e ps req b i =
             Inr (\<lparr>status = 200,
                   body = Json (message_json ''Product updated successfully'' p)\<rparr>,
                  ps[k := p])
         \<and> ps[k := p] ! k = p
         \<and> map pid (ps[k := p]) = map pid ps"
    by (intro updateProduct_present) simp_all
next
  fix r ps'
  assume "updateProduct e ps req b i = Inr (r, ps')"
  then obtain k p where k: "findIndex (\<lambda>p. pid p = i) ps = Some k"
    and p: "newProduct i b = Some p"
    and r: "r = \<lparr>status = 200,
                 body = Json (message_json ''Product updated successfully'' p)\<rparr>"
    and ps': "ps' = ps[k := p]"
    unfolding updateProduct_Inr by (elim exE conjE)
  from replaced_ids [OF k p] ps' show "map pid ps' = map pid ps" by simp
  from replaced_ids [OF k p] ps' r
  show "\<exists>p. p \<in> set ps' \<and> pid p = i
           \<and> r = \<lparr>status = 200,
                   body = Json (message_json ''Product updated successfully'' p)\<rparr>"
    by (intro exI [of _ p]) simp
next
  show "load globals lean_module = Inl ''authenticateApiKey''"
    by (rule lean_module_throws)
qed

theorem replace_keeps_id_witness:
  "field body_replace ''id'' = JStr ''999''
   \<and> map pid (snd (respond env_test products request_put
                     (updateProduct env_test products request_put body_replace ''2'')))
       = [''1'', ''2'', ''3'']
   \<and> status (fst (respond env_test products request_put
                     (updateProduct env_test products request_put body_replace ''2''))) = 200"
proof -
  have valid: "validateProduct body_replace = None"
    by (simp add: validateProduct_None_iff other_fields_valid_def nonblank_string_def
        nonempty_string_def optional_boolean_def nonneg_number_def field_def body_replace_def
        trim_def is_ws_def)
  have ids: "map pid products = [''1'', ''2'', ''3'']"
    by (simp add: products_def)
  then have present: "''2'' \<in> set (map pid products)" by simp
  have pre: "''2'' \<in> set (map pid products) \<and> authenticateApiKey env_test request_put = None
      \<and> validateProduct body_replace = None"
    using present request_put_authenticated valid by simp
  note rule = replace_keeps_id [of "''2''" products env_test request_put body_replace]
  from mp [OF conjunct1 [OF rule] pre]
  obtain k p where updated:
    "updateProduct env_test products request_put body_replace ''2'' =
       Inr (\<lparr>status = 200,
             body = Json (message_json ''Product updated successfully'' p)\<rparr>,
            products[k := p])"
    by (elim exE conjE)
  from mp [OF spec [OF spec [OF conjunct1 [OF conjunct2 [OF rule]]]] updated]
  have "map pid (products[k := p]) = map pid products"
    by (elim conjE)
  with ids updated show ?thesis
    by (simp add: respond_def field_def body_replace_def)
qed

section \<open>Trimming of the stored fields\<close>

lemma schema_String_JStr: "schema_String m (JStr s) = Some (JStr s)"
  by (simp add: schema_String_def)

lemma new_Product_Some:
  assumes "new_Product m i name description price category inStock = Some d"
  shows "schema_String m name = Some (dname d)"
    and "schema_String m description = Some (ddescription d)"
    and "schema_String m category = Some (dcategory d)"
  using assms unfolding new_Product_def
  by (auto split: option.splits)

lemma router_post_201:
  assumes "router_post e m coll b = (r, coll')" "status r = 201"
  shows "\<exists>d. coll' = coll @ [d]
           \<and> new_Product m (uuid e) (field b ''name'') (field b ''description'')
               (field b ''price'') (field b ''category'') (field b ''inStock'') = Some d"
  using assms unfolding router_post_def Let_def
  by (auto simp: server_error_def split: if_splits option.splits)

text \<open>
  C7, as stated, fails on the database-backed router: its POST hands the fields of the
  body to the document as they are and the schema has no trim option, so a padded name is
  stored padded.
\<close>

theorem router_stores_untrimmed:
  "status (fst (router_post env_test mongoose_up [] body_padded)) = 201
   \<and> map dname (snd (router_post env_test mongoose_up [] body_padded)) = [JStr ''  Mug  '']
   \<and> field body_padded ''name'' = JStr ''  Mug  ''
   \<and> trim ''  Mug  '' = ''Mug''"
  by (simp add: router_post_def Let_def field_def body_padded_def new_Product_def
      schema_String_def schema_Number_def schema_Boolean_def mongoose_up_def accepts_def
      trim_def is_ws_def)

text \<open>
  C7, amended. In the rich server, every successful POST appends and every successful PUT
  puts in place a record whose name, description and category are the trimmed strings of
  the body. The lean server's file throws when it is loaded, so it stores nothing. In the
  database-backed router, a successful POST appends a document in which a name,
  description or category that the body gives as a string is that string, untrimmed.
\<close>

theorem stored_fields_trimmed:
  "(\<forall>r ps'. createProduct e ps req b = Inr (r, ps') \<longrightarrow>
       (\<exists>p. ps' = ps @ [p] \<and> trimmed_from b p))
   \<and> (\<forall>r ps'. updateProduct e ps req b i = Inr (r, ps') \<longrightarrow>
       (\<exists>k p. k < length ps \<and> ps' = ps[k := p] \<and> ps' ! k = p \<and> trimmed_from b p))
   \<and> load globals lean_module = Inl ''authenticateApiKey''
   \<and> (\<forall>r coll'. router_post e db coll b = (r, coll') \<and> status r = 201 \<longrightarrow>
       (\<exists>d. coll' = coll @ [d]
            \<and> (\<forall>s. field b ''name'' = JStr s \<longrightarrow> dname d = JStr s)
            \<and> (\<forall>s. field b ''description'' = JStr s \<longrightarrow> ddescription d = JStr s)
            \<and> (\<forall>s. field b ''category'' = JStr s \<longrightarrow> dcategory d = JStr s)))"
proof (intro conjI allI impI)
  fix r ps'
  assume "createProduct e ps req b = Inr (r, ps')"
  then obtain p where "newProduct (uuid e) b = Some p" "ps' = ps @ [p]"
    unfolding createProduct_Inr by (elim exE conjE)
  then show "\<exists>p. ps' = ps @ [p] \<and> trimmed_from b p"
    by (intro exI [of _ p]) (simp add: newProduct_trimmed)
next
  fix r ps'
  assume "updateProduct e ps req b i = Inr (r, ps')"
  then obtain k p where k: "findIndex (\<lambda>p. pid p = i) ps = Some k"
    and p: "newProduct i b = Some p" and ps': "ps' = ps[k := p]"
    unfolding updateProduct_Inr by (elim exE conjE)
  from findIndex_Some [OF k] have "k < length ps" by simp
  with p ps' show "\<exists>k p. k < length ps \<and> ps' = ps[k := p] \<and> ps' ! k = p \<and> trimmed_from b p"
    by (intro exI [of _ k] exI [of _ p]) (simp add: newProduct_trimmed)
next
  show "load globals lean_module = Inl ''authenticateApiKey''"
    by (rule lean_module_throws)
next
  fix r coll'
  assume a: "router_post e db coll b = (r, coll') \<and> status r = 201"
  from router_post_201 [OF conjunct1 [OF a] conjunct2 [OF a]]
  obtain d where coll': "coll' = coll @ [d]"
    and d: "new_Product db (uuid e) (field b ''name'') (field b ''description'')
               (field b ''price'') (field b ''category'') (field b ''inStock'') = Some d"
    by (elim exE conjE)
  have n: "\<forall>s. field b ''name'' = JStr s \<longrightarrow> dname d = JStr s"
    using new_Product_Some(1) [OF d] by (auto simp: schema_String_JStr)
  have de: "\<forall>s. field b ''description'' = JStr s \<longrightarrow> ddescription d = JStr s"
    using new_Product_Some(2) [OF d] by (auto simp: schema_String_JStr)
  have c: "\<forall>s. field b ''category'' = JStr s \<longrightarrow> dcategory d = JStr s"
    using new_Product_Some(3) [OF d] by (auto simp: schema_String_JStr)
  show "\<exists>d. coll' = coll @ [d]
            \<and> (\<forall>s. field b ''name'' = JStr s \<longrightarrow> dname d = JStr s)
            \<and> (\<forall>s. field b ''description'' = JStr s \<longrightarrow> ddescription d = JStr s)
            \<and> (\<forall>s. field b ''category'' = JStr s \<longrightarrow> dcategory d = JStr s)"
    by (rule exI [of _ d]) (intro conjI coll' n de c)
qed

theorem stored_fields_trimmed_witness:
  "map pname (snd (respond env_test products request_post
                     (createProduct env_test products request_post body_padded)))
     = [''Laptop'', ''Smartphone'', ''Coffee Maker'', ''Mug'']
   \<and> map pcategory (snd (respond env_test products request_put
                     (updateProduct env_test products request_put body_padded ''2'')))
     = [''electronics'', ''kitchen'', ''kitchen'']
   \<and> map dcategory (snd (router_post env_test mongoose_up [] body_padded))
     = [JStr ''kitchen '']"
proof -
  have valid: "validateProduct body_padded = None"
    by (simp add: validateProduct_None_iff other_fields_valid_def nonblank_string_def
        nonempty_string_def optional_boolean_def nonneg_number_def field_def body_padded_def
        trim_def is_ws_def)
  have fields: "field body_padded ''name'' = JStr ''  Mug  ''"
    "field body_padded ''description'' = JStr '' A mug''"
    "field body_padded ''category'' = JStr ''kitchen ''"
    by (simp_all add: field_def body_padded_def)
  have trims: "trim ''  Mug  '' = ''Mug''" "trim '' A mug'' = ''A mug''"
    "trim ''kitchen '' = ''kitchen''"
    by (simp_all add: trim_def is_ws_def)
  note rule = stored_fields_trimmed [of env_test products _ body_padded]
  \<comment> \<open>POST, rich server\<close>
  from validateProduct_newProduct [OF valid, of "uuid env_test"]
  obtain p where p: "newProduct (uuid env_test) body_padded = Some p" by (elim exE)
  let ?r = "\<lparr>status = 201, body = Json (message_json ''Product created successfully'' p)\<rparr>"
  have created: "createProduct env_test products request_post body_padded =
      Inr (?r, products @ [p])"
    using request_post_authenticated valid p by (simp add: createProduct_Inr)
  from conjunct1 [OF rule [of request_post]] created
  obtain p' where "products @ [p] = products @ [p']" "trimmed_from body_padded p'"
    by (elim allE [of _ ?r] allE [of _ "products @ [p]"] impE exE conjE) simp_all
  then have tp: "trimmed_from body_padded p" by simp
  then have 1: "map pname (snd (respond env_test products request_post
                     (createProduct env_test products request_post body_padded)))
     = [''Laptop'', ''Smartphone'', ''Coffee Maker'', ''Mug'']"
    using created
    by (simp add: respond_def trimmed_from_def trimmed_def fields trims products_def)
  \<comment> \<open>PUT, rich server\<close>
  have k: "findIndex (\<lambda>p. pid p = ''2'') products = Some 1"
    by (simp add: products_def)
  from validateProduct_newProduct [OF valid, of "''2''"]
  obtain q where q: "newProduct ''2'' body_padded = Some q" by (elim exE)
  let ?u = "\<lparr>status = 200, body = Json (message_json ''Product updated successfully'' q)\<rparr>"
  have updated: "updateProduct env_test products request_put body_padded ''2'' =
      Inr (?u, products[1 := q])"
    using request_put_authenticated valid k q by (simp add: updateProduct_Inr)
  from conjunct1 [OF conjunct2 [OF rule [of request_put "''2''"]]] updated
  obtain k' q' where "k' < length products" "products[1 := q] = products[k' := q']"
    "products[1 := q] ! k' = q'" "trimmed_from body_padded q'"
    by (elim allE [of _ ?u] allE [of _ "products[1 := q]"] impE exE conjE) simp_all
  have "trimmed_from body_padded q" using q by (rule newProduct_trimmed)
  then have 2: "map pcategory (snd (respond env_test products request_put
                     (updateProduct env_test products request_put body_padded ''2'')))
     = [''electronics'', ''kitchen'', ''kitchen'']"
    using updated
    by (simp add: respond_def trimmed_from_def trimmed_def fields trims products_def)
  \<comment> \<open>POST, database-backed router\<close>
  obtain r coll' where posted: "router_post env_test mongoose_up [] body_padded = (r, coll')"
    by (cases "router_post env_test mongoose_up [] body_padded")
  have "status (fst (router_post env_test mongoose_up [] body_padded)) = 201"
    by (simp add: router_post_def Let_def field_def body_padded_def new_Product_def
        schema_String_def schema_Number_def schema_Boolean_def mongoose_up_def accepts_def)
  with posted have ok: "router_post env_test mongoose_up [] body_padded = (r, coll')
      \<and> status r = 201"
    by simp
  note router_rule = conjunct2 [OF conjunct2 [OF conjunct2
      [OF stored_fields_trimmed [of env_test products request_post body_padded "''2''"
          mongoose_up "[]"]]]]
  from mp [OF spec [OF spec [OF router_rule]] ok]
  obtain d where "coll' = [] @ [d]"
    and "\<forall>s. field body_padded ''category'' = JStr s \<longrightarrow> dcategory d = JStr s"
    by (elim exE conjE)
  with fields(3) posted
  have 3: "map dcategory (snd (router_post env_test mongoose_up [] body_padded))
     = [JStr ''kitchen '']"
    by simp
  from 1 2 3 show ?thesis by simp
qed

section \<open>Inserting without a duplicate check\<close>

text \<open>
  C9, as stated, fails: the rich server has no \<open>ConflictError\<close> and its POST handler
  pushes the new record without looking at the ids in the store. When the generator
  returns an id that a stored product already has, the POST is answered with 201 and the
  store holds two records with that id.
\<close>

theorem duplicate_id_appended:
  "uuid env_test \<in> set (map pid (products @ [product_constructor]))
   \<and> createProduct env_test (products @ [product_constructor]) request_post body_constructor =
       Inr (\<lparr>status = 201,
             body = Json (message_json ''Product created successfully'' product_constructor)\<rparr>,
            (products @ [product_constructor]) @ [product_constructor])
   \<and> map pid ((products @ [product_constructor]) @ [product_constructor]) =
       [''1'', ''2'', ''3'', ''110ec58a-a0f2-4ac4-8393-c866d813b8d1'',
        ''110ec58a-a0f2-4ac4-8393-c866d813b8d1'']"
proof (intro conjI)
  have valid: "validateProduct body_constructor = None"
    by (simp add: validateProduct_def field_def body_constructor_def trim_def is_ws_def)
  have new: "newProduct (uuid env_test) body_constructor = Some product_constructor"
    by (simp add: newProduct_def field_def body_constructor_def product_constructor_def
        env_test_def trim_def is_ws_def)
  show "uuid env_test \<in> set (map pid (products @ [product_constructor]))"
    by (simp add: env_test_def product_constructor_def)
  show "createProduct env_test (products @ [product_constructor]) request_post body_constructor =
       Inr (\<lparr>status = 201,
             body = Json (message_json ''Product created successfully'' product_constructor)\<rparr>,
            (products @ [product_constructor]) @ [product_constructor])"
    using request_post_authenticated valid new by (simp add: createProduct_def)
  show "map pid ((products @ [product_constructor]) @ [product_constructor]) =
       [''1'', ''2'', ''3'', ''110ec58a-a0f2-4ac4-8393-c866d813b8d1'',
        ''110ec58a-a0f2-4ac4-8393-c866d813b8d1'']"
    by (simp add: products_def product_constructor_def)
qed

text \<open>
  C9, amended. In the rich server, an insert whose generated id is already present in the
  store, made with a valid key and a valid body, does not fail: it is answered with 201,
  the record is appended at the end of the store, and the store then holds that id twice.
  The lean server's file throws when it is loaded, so it inserts nothing.
\<close>

theorem insert_appends_unchecked:
  "(uuid e \<in> set (map pid ps) \<and> authenticateApiKey e req = None \<and> validateProduct b = None
      \<longrightarrow>
      (\<exists>p. pid p = uuid e
          \<and> createProduct e ps req b =
              Inr (\<lparr>status = 201,
                    body = Json (message_json ''Product created successfully'' p)\<rparr>,
                   ps @ [p])
          \<and> \<not> distinct (map pid (ps @ [p]))))
   \<and> load globals lean_module = Inl ''authenticateApiKey''"
proof (intro conjI impI)
  assume a: "uuid e \<in> set (map pid ps) \<and> authenticateApiKey e req = None
      \<and> validateProduct b = None"
  then have auth: "authenticateApiKey e req = None" and valid: "validateProduct b = None"
    and present: "uuid e \<in> set (map pid ps)"
    by simp_all
  from validateProduct_newProduct [OF valid, of "uuid e"]
  obtain p where p: "newProduct (uuid e) b = Some p" by (elim exE)
  from newProduct_Some [OF p] have i: "pid p = uuid e" by (elim exE conjE)
  from auth valid p have created: "createProduct e ps req b =
      Inr (\<lparr>status = 201, body = Json (message_json ''Product created successfully'' p)\<rparr>,
           ps @ [p])"
    by (simp add: createProduct_def)
  from present i have twice: "\<not> distinct (map pid (ps @ [p]))" by simp
  show "\<exists>p. pid p = uuid e
          \<and> createProduct e ps req b =
              Inr (\<lparr>status = 201,
                    body = Json (message_json ''Product created successfully'' p)\<rparr>,
                   ps @ [p])
          \<and> \<not> distinct (map pid (ps @ [p]))"
    by (rule exI [of _ p]) (intro conjI i created twice)
next
  show "load globals lean_module = Inl ''authenticateApiKey''"
    by (rule lean_module_throws)
qed

theorem insert_appends_unchecked_witness:
  "map pid (snd (respond env_test (products @ [product_constructor]) request_post
                  (createProduct env_test (products @ [product_constructor]) request_post
                     body_free)))
     = [''1'', ''2'', ''3'', ''110ec58a-a0f2-4ac4-8393-c866d813b8d1'',
        ''110ec58a-a0f2-4ac4-8393-c866d813b8d1'']
   \<and> status (fst (respond env_test (products @ [product_constructor]) request_post
                  (createProduct env_test (products @ [product_constructor]) request_post
                     body_free))) = 201"
proof -
  let ?ps = "products @ [product_constructor]"
  have valid: "validateProduct body_free = None"
    by (simp add: validateProduct_None_iff other_fields_valid_def nonblank_string_def
        nonempty_string_def optional_boolean_def nonneg_number_def field_def body_free_def
        trim_def is_ws_def)
  have ids: "map pid ?ps = [''1'', ''2'', ''3'', ''110ec58a-a0f2-4ac4-8393-c866d813b8d1'']"
    by (simp add: products_def product_constructor_def)
  have pre: "uuid env_test \<in> set (map pid ?ps)
      \<and> authenticateApiKey env_test request_post = None \<and> validateProduct body_free = None"
    using request_post_authenticated valid ids by (simp add: env_test_def)
  note rule = insert_appends_unchecked [of env_test ?ps request_post body_free]
  from mp [OF conjunct1 [OF rule] pre]
  obtain p where p: "pid p = uuid env_test"
    and created: "createProduct env_test ?ps request_post body_free =
      Inr (\<lparr>status = 201, body = Json (message_json ''Product created successfully'' p)\<rparr>,
           ?ps @ [p])"
    by (elim exE conjE)
  have "map pid (snd (respond env_test ?ps request_post
                  (createProduct env_test ?ps request_post body_free)))
       = map pid ?ps @ [uuid env_test]"
    by (simp add: created respond_def p)
  then have 1: "map pid (snd (respond env_test ?ps request_post
                  (createProduct env_test ?ps request_post body_free)))
     = [''1'', ''2'', ''3'', ''110ec58a-a0f2-4ac4-8393-c866d813b8d1'',
        ''110ec58a-a0f2-4ac4-8393-c866d813b8d1'']"
    by (simp only: ids) (simp add: env_test_def)
  have 2: "status (fst (respond env_test ?ps request_post
                  (createProduct env_test ?ps request_post body_free))) = 201"
    by (simp add: created respond_def)
  from 1 2 show ?thesis by (intro conjI)
qed

section \<open>Failure responses\<close>

lemma error_json_fields:
  "error_fields (Json (error_json name message statusCode e req)) =
     [(''name'', JStr name), (''message'', JStr message),
      (''statusCode'', JNum (of_nat statusCode)), (''timestamp'', JStr (now e)),
      (''path'', JStr (req_url req)), (''method'', JStr (req_method req))]"
  by (simp add: error_fields_def error_json_def)

lemma errorHandler_body:
  "\<exists>name message. body (errorHandler e req err) =
     Json (error_json name message (status (errorHandler e req err)) e req)"
proof (cases err)
  case (OtherError f)
  obtain n m st hb where "f = Foreign n m st hb" by (cases f)
  with OtherError show ?thesis by (auto simp: errorHandler_def)
qed (auto simp: errorHandler_def)

lemma errorHandler_shape: "has_error_shape (body (errorHandler e req err))"
proof -
  from errorHandler_body [of e req err] obtain name message where
    "body (errorHandler e req err) =
       Json (error_json name message (status (errorHandler e req err)) e req)"
    by (elim exE)
  then show ?thesis by (simp add: has_error_shape_def error_json_fields)
qed

lemma errorHandler_fields:
  "map_of (error_fields (body (errorHandler e req err))) ''statusCode'' =
     Some (JNum (of_nat (status (errorHandler e req err))))"
  "map_of (error_fields (body (errorHandler e req err))) ''timestamp'' = Some (JStr (now e))"
  "map_of (error_fields (body (errorHandler e req err))) ''path'' = Some (JStr (req_url req))"
  "map_of (error_fields (body (errorHandler e req err))) ''method'' =
     Some (JStr (req_method req))"
proof -
  from errorHandler_body [of e req err] obtain name message where
    b: "body (errorHandler e req err) =
       Json (error_json name message (status (errorHandler e req err)) e req)"
    by (elim exE)
  show "map_of (error_fields (body (errorHandler e req err))) ''statusCode'' =
     Some (JNum (of_nat (status (errorHandler e req err))))"
    by (simp add: b error_json_fields)
  show "map_of (error_fields (body (errorHandler e req err))) ''timestamp'' =
     Some (JStr (now e))"
    by (simp add: b error_json_fields)
  show "map_of (error_fields (body (errorHandler e req err))) ''path'' =
     Some (JStr (req_url req))"
    by (simp add: b error_json_fields)
  show "map_of (error_fields (body (errorHandler e req err))) ''method'' =
     Some (JStr (req_method req))"
    by (simp add: b error_json_fields)
qed

lemma errorHandler_status:
  "status (errorHandler e req err) \<in> {400, 401, 404, 500}"
proof (cases err)
  case (OtherError f)
  obtain n m st hb where "f = Foreign n m st hb" by (cases f)
  with OtherError show ?thesis by (simp add: errorHandler_def)
qed (simp_all add: errorHandler_def)

lemma errorHandler_unexpected:
  assumes "unexpected f"
  shows "errorHandler e req (OtherError f) =
     \<lparr>status = 500,
      body = Json (error_json ''InternalServerError''
               (if NODE_ENV e = Some ''production'' then ''Something went wrong on our end''
                else err_message (OtherError f))
               500 e req)\<rparr>"
proof -
  obtain n m st hb where f: "f = Foreign n m st hb" by (cases f)
  with assms have "n \<noteq> ''CastError''" "\<not> (n = ''SyntaxError'' \<and> st = Some 400 \<and> hb)"
    by (auto split: if_splits)
  with f show ?thesis by (simp add: errorHandler_def)
qed

lemma errorHandler_foreign_status:
  "status (errorHandler e req (OtherError f)) = 400
   \<or> status (errorHandler e req (OtherError f)) = 500"
proof -
  obtain n m st hb where "f = Foreign n m st hb" by (cases f)
  then show ?thesis by (simp add: errorHandler_def)
qed

lemma deleteProduct_Inr:
  "deleteProduct e ps req i = Inr (r, ps') \<Longrightarrow> status r = 200"
  unfolding deleteProduct_def by (auto split: option.splits)

lemma run_handler_Inr:
  assumes "run_handler e ps req b h params = Inr (r, ps')"
  shows "status r = 200 \<or> status r = 201"
proof (cases h)
  case GetProduct
  with assms show ?thesis
    by (auto simp: run_handler_def split: sum.splits)
next
  case CreateProduct
  with assms have "createProduct e ps req b = Inr (r, ps')" by (simp add: run_handler_def)
  then show ?thesis unfolding createProduct_Inr by auto
next
  case UpdateProduct
  with assms have "updateProduct e ps req b (concat params) = Inr (r, ps')"
    by (simp add: run_handler_def)
  then show ?thesis unfolding updateProduct_Inr by auto
next
  case DeleteProduct
  with assms have "deleteProduct e ps req (concat params) = Inr (r, ps')"
    by (simp add: run_handler_def)
  then show ?thesis by (auto dest: deleteProduct_Inr)
qed (use assms in \<open>auto simp: run_handler_def\<close>)

lemma respond_cases:
  assumes "respond e ps req (run_handler e ps req b h params) = (r, ps')"
  shows "(\<exists>err. r = errorHandler e req err \<and> ps' = ps) \<or> status r = 200 \<or> status r = 201"
proof (cases "run_handler e ps req b h params")
  case (Inl err)
  with assms show ?thesis by (auto simp: respond_def)
next
  case (Inr rp)
  with assms have "run_handler e ps req b h params = Inr (r, ps')"
    by (simp add: respond_def)
  then show ?thesis by (auto dest: run_handler_Inr)
qed

lemma app_cases:
  assumes "app e ps req = (Some r, ps')"
  shows "(\<exists>err. r = errorHandler e req err \<and> ps' = ps) \<or> status r = 200 \<or> status r = 201"
proof (cases "req_body req")
  case (Inl f)
  with assms show ?thesis by (auto simp: app_def)
next
  case (Inr b)
  show ?thesis
  proof (cases "find_route e routes (req_method req) (pathname (req_url req))")
    case (Inl err)
    with Inr assms show ?thesis by (auto simp: app_def)
  next
    case found: (Inr found)
    show ?thesis
    proof (cases found)
      case None
      with Inr found assms show ?thesis by (simp add: app_def)
    next
      case (Some hp)
      obtain h params where hp: "hp = (h, params)" by (cases hp)
      with Some Inr found assms
      have "respond e ps req (run_handler e ps req b h params) = (r, ps')"
        by (simp add: app_def split: prod.splits)
      then show ?thesis by (rule respond_cases)
    qed
  qed
qed

text \<open>
  C8, as stated, fails in two places. The database-backed router answers its failures in
  place and not through the error handler: a POST without a name is answered with 400 and
  the body \<open>{ message: 'All fields are required' }\<close>, which has no \<open>error\<close> member.
  And the error handler answers an error named \<open>CastError\<close>, which is none of
  NotFoundError, ValidationError, AuthenticationError or a malformed body, with 400 and not
  with 500.
\<close>

theorem failure_bodies_differ:
  "missing_required body_missing
   \<and> router_post env_test mongoose_up [] body_missing =
       (\<lparr>status = 400,
         body = Json (JObj [(''message'', JStr ''All fields are required'')])\<rparr>, [])
   \<and> has_error_shape (Json (JObj [(''message'', JStr ''All fields are required'')])) = False
   \<and> errorHandler env_test request_get_missing (OtherError cast_error) =
       \<lparr>status = 400,
        body = Json (error_json ''ValidationError'' ''Invalid ID format'' 400 env_test
                       request_get_missing)\<rparr>"
  by (simp add: missing_required_def body_missing_def field_def router_post_def Let_def
      has_error_shape_def error_fields_def errorHandler_def cast_error_def)

text \<open>
  C8, amended. In the rich server every failure goes through the error handler, and
  every response of the error handler has the body
  \<open>{ error: { name, message, statusCode, timestamp, path, method } }\<close>, the statusCode
  being the status of the response: 404 for a NotFoundError, 400 for a ValidationError,
  for a body that is not JSON and for an error named CastError, 401 for an
  AuthenticationError, and 500 for any other error, whose message is a fixed text when
  \<open>NODE_ENV\<close> is \<open>production\<close> and the error's own message otherwise. Every response
  of the rich server's routes with a status of 400 or more is such a response, with status
  400, 401, 404 or 500.
\<close>

theorem error_responses_normalized:
  "has_error_shape (body (errorHandler e req err))
   \<and> map_of (error_fields (body (errorHandler e req err))) ''statusCode'' =
       Some (JNum (of_nat (status (errorHandler e req err))))
   \<and> map_of (error_fields (body (errorHandler e req err))) ''timestamp'' = Some (JStr (now e))
   \<and> map_of (error_fields (body (errorHandler e req err))) ''path'' = Some (JStr (req_url req))
   \<and> map_of (error_fields (body (errorHandler e req err))) ''method'' =
       Some (JStr (req_method req))
   \<and> errorHandler e req (NotFoundError m) =
       \<lparr>status = 404, body = Json (error_json ''NotFoundError'' m 404 e req)\<rparr>
   \<and> errorHandler e req (ValidationError m) =
       \<lparr>status = 400, body = Json (error_json ''ValidationError'' m 400 e req)\<rparr>
   \<and> errorHandler e req (AuthenticationError m) =
       \<lparr>status = 401, body = Json (error_json ''AuthenticationError'' m 401 e req)\<rparr>
   \<and> errorHandler e req (OtherError (malformed_json m)) =
       \<lparr>status = 400,
        body = Json (error_json ''ValidationError'' ''Invalid JSON format in request body''
                       400 e req)\<rparr>
   \<and> errorHandler e req (OtherError (Foreign ''CastError'' m st hb)) =
       \<lparr>status = 400,
        body = Json (error_json ''ValidationError'' ''Invalid ID format'' 400 e req)\<rparr>
   \<and> (unexpected f \<longrightarrow>
        errorHandler e req (OtherError f) =
          \<lparr>status = 500,
           body = Json (error_json ''InternalServerError''
                    (if NODE_ENV e = Some ''production''
                     then ''Something went wrong on our end''
                     else err_message (OtherError f))
                    500 e req)\<rparr>)
   \<and> (\<forall>r ps'. app e ps req = (Some r, ps') \<and> 400 \<le> status r \<longrightarrow>
        has_error_shape (body r) \<and> status r \<in> {400, 401, 404, 500})
   \<and> (i \<notin> set (map pid ps) \<longrightarrow>
        respond e ps req (run_handler e ps req b GetProduct [i]) =
          (\<lparr>status = 404, body = Json (error_json ''NotFoundError''
              (''Product with id '' @ quote i @ '' not found'') 404 e req)\<rparr>, ps))"
proof (intro conjI allI impI)
  show "has_error_shape (body (errorHandler e req err))"
    by (rule errorHandler_shape)
  show "map_of (error_fields (body (errorHandler e req err))) ''statusCode'' =
       Some (JNum (of_nat (status (errorHandler e req err))))"
    by (rule errorHandler_fields)
  show "map_of (error_fields (body (errorHandler e req err))) ''timestamp'' =
       Some (JStr (now e))"
    by (rule errorHandler_fields)
  show "map_of (error_fields (body (errorHandler e req err))) ''path'' =
       Some (JStr (req_url req))"
    by (rule errorHandler_fields)
  show "map_of (error_fields (body (errorHandler e req err))) ''method'' =
       Some (JStr (req_method req))"
    by (rule errorHandler_fields)
  show "errorHandler e req (NotFoundError m) =
       \<lparr>status = 404, body = Json (error_json ''NotFoundError'' m 404 e req)\<rparr>"
    by (simp add: errorHandler_def)
  show "errorHandler e req (ValidationError m) =
       \<lparr>status = 400, body = Json (error_json ''ValidationError'' m 400 e req)\<rparr>"
    by (simp add: errorHandler_def)
  show "errorHandler e req (AuthenticationError m) =
       \<lparr>status = 401, body = Json (error_json ''AuthenticationError'' m 401 e req)\<rparr>"
    by (simp add: errorHandler_def)
  show "errorHandler e req (OtherError (malformed_json m)) =
       \<lparr>status = 400,
        body = Json (error_json ''ValidationError'' ''Invalid JSON format in request body''
                       400 e req)\<rparr>"
    by (simp add: errorHandler_def malformed_json_def)
  show "errorHandler e req (OtherError (Foreign ''CastError'' m st hb)) =
       \<lparr>status = 400,
        body = Json (error_json ''ValidationError'' ''Invalid ID format'' 400 e req)\<rparr>"
    by (simp add: errorHandler_def)
  show "errorHandler e req (OtherError f) =
          \<lparr>status = 500,
           body = Json (error_json ''InternalServerError''
                    (if NODE_ENV e = Some ''production''
                     then ''Something went wrong on our end''
                     else err_message (OtherError f))
                    500 e req)\<rparr>"
    if "unexpected f"
    using that by (rule errorHandler_unexpected)
next
  assume "i \<notin> set (map pid ps)"
  then have none: "find (\<lambda>p. pid p = i) ps = None"
    by (auto simp: find_None_iff)
  show "respond e ps req (run_handler e ps req b GetProduct [i]) =
          (\<lparr>status = 404, body = Json (error_json ''NotFoundError''
              (''Product with id '' @ quote i @ '' not found'') 404 e req)\<rparr>, ps)"
    using none
    by (simp add: respond_def run_handler_def getProduct_def not_found_def errorHandler_def)
next
  fix r ps'
  assume a: "app e ps req = (Some r, ps') \<and> 400 \<le> status r"
  from app_cases [OF conjunct1 [OF a]] a
  obtain err where err: "r = errorHandler e req err"
    by (elim disjE exE conjE) simp_all
  from err show "has_error_shape (body r)" by (simp add: errorHandler_shape)
  from err show "status r \<in> {400, 401, 404, 500}" by (simp only: errorHandler_status)
qed

lemma lower_literals:
  "toLowerCase ''api'' = ''api''" "toLowerCase ''products'' = ''products''"
  "toLowerCase ''stats'' = ''stats''" "toLowerCase ''999'' = ''999''"
  "toLowerCase ''GET'' = ''get''"
  by code_simp+

lemma find_route_missing:
  "find_route env_test routes ''GET'' ''/api/products/999'' = Inr (Some (GetProduct, [''999'']))"
  by (simp add: routes_def match_path_def handles_method_def lower_literals env_test_def)

lemma app_get_missing:
  "app env_test products request_get_missing =
     (Some (errorHandler env_test request_get_missing (not_found ''999'')), products)"
proof -
  have "pathname (req_url request_get_missing) = ''/api/products/999''"
    "req_method request_get_missing = ''GET''"
    "req_body request_get_missing = Inr Map.empty"
    by (simp_all add: request_get_missing_def pathname_def)
  moreover have "getProduct products ''999'' = Inl (not_found ''999'')"
    by (simp add: getProduct_def products_def)
  ultimately show ?thesis
    by (simp add: app_def find_route_missing run_handler_def respond_def)
qed

theorem error_responses_normalized_witness:
  "app env_test products request_get_missing =
     (Some \<lparr>status = 404,
            body = Json (error_json ''NotFoundError''
                     (''Product with id '' @ quote ''999'' @ '' not found'') 404 env_test
                     request_get_missing)\<rparr>, products)
   \<and> has_error_shape (body (errorHandler env_test request_get_missing (not_found ''999'')))
   \<and> status (fst (respond env_test products request_get_missing
         (run_handler env_test products request_get_missing Map.empty GetProduct [''999''])))
       = 404
   \<and> status (errorHandler env_production request_get_missing (OtherError broken)) = 500
   \<and> map_of (error_fields (body (errorHandler env_production request_get_missing
                 (OtherError broken)))) ''message'' =
       Some (JStr ''Something went wrong on our end'')
   \<and> map_of (error_fields (body (errorHandler env_test request_get_missing
                 (OtherError broken)))) ''message'' =
       Some (JStr ''Cannot read properties of undefined'')"
proof -
  note rule_test = error_responses_normalized
    [where e = env_test and req = request_get_missing and f = broken and ps = products]
  note rule_production = error_responses_normalized
    [where e = env_production and req = request_get_missing and f = broken]
  have unexp: "unexpected broken" by (simp add: broken_def)
  let ?r = "errorHandler env_test request_get_missing (not_found ''999'')"
  have r: "?r = \<lparr>status = 404,
            body = Json (error_json ''NotFoundError''
                     (''Product with id '' @ quote ''999'' @ '' not found'') 404 env_test
                     request_get_missing)\<rparr>"
    by (simp add: errorHandler_def not_found_def)
  have pre: "app env_test products request_get_missing = (Some ?r, products) \<and> 400 \<le> status ?r"
    by (simp add: app_get_missing r)
  note app_rule = conjunct1 [OF conjunct2 [OF conjunct2 [OF conjunct2 [OF conjunct2
    [OF conjunct2 [OF conjunct2 [OF conjunct2 [OF conjunct2 [OF conjunct2 [OF conjunct2
    [OF conjunct2 [OF rule_test]]]]]]]]]]]]
  from mp [OF spec [OF spec [OF app_rule]] pre]
  have 1: "has_error_shape (body ?r)" by (elim conjE)
  note unexpected_test = conjunct1 [OF conjunct2 [OF conjunct2 [OF conjunct2 [OF conjunct2
    [OF conjunct2 [OF conjunct2 [OF conjunct2 [OF conjunct2 [OF conjunct2 [OF conjunct2
    [OF rule_test]]]]]]]]]]]
  note unexpected_production = conjunct1 [OF conjunct2 [OF conjunct2 [OF conjunct2
    [OF conjunct2 [OF conjunct2 [OF conjunct2 [OF conjunct2 [OF conjunct2 [OF conjunct2
    [OF conjunct2 [OF rule_production]]]]]]]]]]]
  from mp [OF unexpected_production unexp]
  have 2: "status (errorHandler env_production request_get_missing (OtherError broken)) = 500
     \<and> map_of (error_fields (body (errorHandler env_production request_get_missing
                 (OtherError broken)))) ''message'' =
       Some (JStr ''Something went wrong on our end'')"
    by (simp add: error_json_fields env_production_def)
  from mp [OF unexpected_test unexp]
  have 3: "map_of (error_fields (body (errorHandler env_test request_get_missing
                 (OtherError broken)))) ''message'' =
       Some (JStr ''Cannot read properties of undefined'')"
    by (simp add: error_json_fields env_test_def broken_def)
  have absent: "''999'' \<notin> set (map pid products)" by (simp add: products_def)
  note missing_rule = conjunct2 [OF conjunct2 [OF conjunct2 [OF conjunct2 [OF conjunct2
    [OF conjunct2 [OF conjunct2 [OF conjunct2 [OF conjunct2 [OF conjunct2 [OF conjunct2
    [OF conjunct2 [OF rule_test [where i = "''999''" and b = Map.empty]]]]]]]]]]]]]
  from mp [OF missing_rule absent]
  have 4: "status (fst (respond env_test products request_get_missing
         (run_handler env_test products request_get_missing Map.empty GetProduct [''999''])))
       = 404"
    by simp
  from pre r 1 2 3 4 show ?thesis by simp
qed

section \<open>The statistics route comes first\<close>

lemma find_route_stats:
  "find_route e routes ''GET'' ''/api/products/stats'' = Inr (Some (Stats, []))"
  by (simp add: routes_def match_path_def handles_method_def lower_literals)

lemma id_route_matches_stats:
  "match_path [Lit ''api'', Lit ''products'', Param] ''/api/products/stats'' = Some [''stats'']"
  by (simp add: match_path_def lower_literals)

text \<open>
  C10. In the rich server a GET of \<open>/api/products/stats\<close> is dispatched to the
  statistics handler. The path also matches the pattern of the \<open>:id\<close> route, with the id
  \<open>stats\<close>, but that route is registered after the statistics route and is not
  reached. The request is answered with 200 and the statistics whenever its body, if
  any, parses; in no case is it answered with 404.
\<close>

theorem stats_route_first:
  "find_route e routes ''GET'' ''/api/products/stats'' = Inr (Some (Stats, []))
   \<and> match_path [Lit ''api'', Lit ''products'', Param] ''/api/products/stats'' = Some [''stats'']
   \<and> routes ! 2 = (''get'', [Lit ''api'', Lit ''products'', Lit ''stats''], Stats)
   \<and> routes ! 3 = (''get'', [Lit ''api'', Lit ''products'', Param], GetProduct)
   \<and> (req_method req = ''GET'' \<and> pathname (req_url req) = ''/api/products/stats'' \<longrightarrow>
        (\<forall>b. req_body req = Inr b \<longrightarrow>
           app e ps req =
             (Some \<lparr>status = 200, body = Json (stats_json (getStats ps))\<rparr>, ps))
        \<and> (\<exists>r. app e ps req = (Some r, ps) \<and> status r \<noteq> 404))"
proof (intro conjI allI impI)
  show "find_route e routes ''GET'' ''/api/products/stats'' = Inr (Some (Stats, []))"
    by (rule find_route_stats)
  show "match_path [Lit ''api'', Lit ''products'', Param] ''/api/products/stats'' =
      Some [''stats'']"
    by (rule id_route_matches_stats)
  show "routes ! 2 = (''get'', [Lit ''api'', Lit ''products'', Lit ''stats''], Stats)"
    by (simp add: routes_def)
  show "routes ! 3 = (''get'', [Lit ''api'', Lit ''products'', Param], GetProduct)"
    by (simp add: routes_def numeral_3_eq_3)
next
  fix b
  assume "req_method req = ''GET'' \<and> pathname (req_url req) = ''/api/products/stats''"
    and "req_body req = Inr b"
  then show "app e ps req =
      (Some \<lparr>status = 200, body = Json (stats_json (getStats ps))\<rparr>, ps)"
    by (simp add: app_def find_route_stats run_handler_def respond_def)
next
  assume a: "req_method req = ''GET'' \<and> pathname (req_url req) = ''/api/products/stats''"
  show "\<exists>r. app e ps req = (Some r, ps) \<and> status r \<noteq> 404"
  proof (cases "req_body req")
    case (Inl f)
    then have "app e ps req = (Some (errorHandler e req (OtherError f)), ps)"
      by (simp add: app_def)
    moreover have "status (errorHandler e req (OtherError f)) \<noteq> 404"
      using errorHandler_foreign_status [of e req f] by auto
    ultimately show ?thesis by (intro exI conjI)
  next
    case (Inr b)
    with a have "app e ps req =
        (Some \<lparr>status = 200, body = Json (stats_json (getStats ps))\<rparr>, ps)"
      by (simp add: app_def find_route_stats run_handler_def respond_def)
    then show ?thesis by simp
  qed
qed

theorem stats_route_first_witness:
  "app env_test products request_get_stats =
     (Some \<lparr>status = 200,
            body = Json (JObj [(''total'', JNum 3), (''inStock'', JNum 2),
                     (''byCategory'',
                      JObj [(''electronics'', JNum 2), (''kitchen'', JNum 1)])])\<rparr>,
      products)"
proof -
  have pre: "req_method request_get_stats = ''GET''
      \<and> pathname (req_url request_get_stats) = ''/api/products/stats''"
    by (simp add: request_get_stats_def pathname_def)
  have parsed: "req_body request_get_stats = Inr Map.empty"
    by (simp add: request_get_stats_def)
  note rule = stats_route_first [of env_test request_get_stats products]
  note served = conjunct1 [OF mp [OF conjunct2 [OF conjunct2 [OF conjunct2 [OF conjunct2
    [OF rule]]]] pre]]
  from mp [OF spec [OF served] parsed] show ?thesis
    by (simp only: seed_stats_json)
qed

end
